theory Spec2Isabelle
  imports Main "HOL-Library.AList"
begin

section \<open>Data model\<close>

text \<open>
  The dispatch layer of the generation server: the task manager of \<^verbatim>\<open>src/main.py\<close>
  (class \<^verbatim>\<open>TaskManager\<close> and the methods of class \<^verbatim>\<open>Api\<close> that drive it), the
  worker socket handler of \<^verbatim>\<open>src/server/ws_routes.py\<close> and the immediate dispatch of
  \<^verbatim>\<open>chat_completions\<close> in \<^verbatim>\<open>src/api_server_fastapi.py\<close>.

  Clock readings (\<^verbatim>\<open>datetime.now()\<close>) are integers counting microseconds, the
  resolution of Python's \<^verbatim>\<open>datetime\<close>; every operation takes the reading as an
  argument, one reading for each operation. Strings are lists of 8-bit characters, so
  only code points below 256 occur in them.
\<close>

type_synonym time = int

text \<open>
  The source stores the status as one of six string literals (waiting, processing,
  done, failed, timeout, download failed, all written in Chinese); they are the
  constructors below, in that order.
\<close>

datatype status = Queued | Assigned | Succeeded | Failed | TimedOut | SaveFailed

text \<open>
  The status detail is a string. The two fixed Chinese texts the server itself writes
  are constructors: \<open>TimeoutDetail m\<close> is the text "task timed out (more than \<open>m\<close>
  minutes)" and \<open>SkipDetail\<close> is "file already exists, generation skipped". Every other
  detail (the empty initial one, worker progress, worker errors) is \<open>Text\<close>.
\<close>

datatype detail = Text string | TimeoutDetail nat | SkipDetail

record task =
  tid :: string
  prompt :: string
  status :: status
  status_detail :: detail
  file_ext :: string
  output_dir :: "string option"
  client_id :: "string option"
  task_type :: string
  aspect_ratio :: string
  resolution :: string
  reference_images :: "string list"
  start_time :: "time option"
  end_time :: "time option"
  import_row_number :: "string option"
  saved_path :: "string option"
  output_dir_path :: "string option"
  preview_base64 :: "string option"

record client =
  ws :: nat
  url :: string
  busy :: bool
  task_id :: "string option"
  page_number :: nat
  last_task_end :: "time option"

text \<open>
  The state: the fields of \<^verbatim>\<open>TaskManager\<close>, and the chunk buffer that
  \<^verbatim>\<open>register_ws_routes\<close> shares between all connections. Python dictionaries keep
  insertion order, which \<^verbatim>\<open>get_idle_client\<close> depends on, so they are association
  lists: \<open>AList.update\<close> overwrites a key in place or appends a new one,
  \<open>AList.map_entry\<close> changes the value of a key that is present, \<open>AList.delete\<close>
  removes a key.
\<close>

record state =
  tasks :: "task list"
  current_index :: nat
  is_running :: bool
  clients :: "(string \<times> client) list"
  next_page_number :: nat
  chunk_buffer :: "(string \<times> (int \<times> string) list) list"

definition init_state :: state where
  "init_state = \<lparr>tasks = [], current_index = 0, is_running = False, clients = [],
     next_page_number = 1, chunk_buffer = []\<rparr>"

definition TASK_TIMEOUT_SECONDS :: int where
  "TASK_TIMEOUT_SECONDS = 600"

definition CLIENT_COOLDOWN_SECONDS :: int where
  "CLIENT_COOLDOWN_SECONDS = 3"

text \<open>\<open>total_seconds\<close> of a difference of two clock readings, compared with a whole
  number of seconds: the comparison is made in microseconds.\<close>

definition seconds :: "int \<Rightarrow> time" where
  "seconds n = n * 1000000"

section \<open>Python helpers\<close>

text \<open>Truth value of an optional string: \<^verbatim>\<open>None\<close> and the empty string are false.\<close>

definition truthy :: "string option \<Rightarrow> bool" where
  "truthy x = (case x of None \<Rightarrow> False | Some v \<Rightarrow> v \<noteq> [])"

text \<open>\<^verbatim>\<open>str.isspace\<close> on the code points below 256, and \<^verbatim>\<open>str.strip()\<close>.\<close>

definition py_isspace :: "char \<Rightarrow> bool" where
  "py_isspace c = ((of_char c :: nat) \<in> {9, 10, 11, 12, 13, 28, 29, 30, 31, 32, 133, 160})"

definition strip :: "string \<Rightarrow> string" where
  "strip s = rev (dropWhile py_isspace (rev (dropWhile py_isspace s)))"

text \<open>The substring test \<^verbatim>\<open>pat in s\<close> and \<^verbatim>\<open>s.startswith(pat)\<close>.\<close>

definition startswith :: "string \<Rightarrow> string \<Rightarrow> bool" where
  "startswith s pat = (take (length pat) s = pat)"

fun contains :: "string \<Rightarrow> string \<Rightarrow> bool" where
  "contains pat [] = (pat = [])"
| "contains pat (c # cs) = (startswith (c # cs) pat \<or> contains pat cs)"

text \<open>Decimal notation of a natural number, as an f-string prints it.\<close>

definition digit :: "nat \<Rightarrow> char" where
  "digit n = ''0123456789'' ! n"

fun dec :: "nat \<Rightarrow> string" where
  "dec n = (if n < 10 then [digit n] else dec (n div 10) @ [digit (n mod 10)])"

declare dec.simps [simp del]

text \<open>A loop that changes the first element with a property and then leaves
  (\<^verbatim>\<open>for task in tasks: if ...: ...; break\<close>).\<close>

fun update_first :: "('a \<Rightarrow> bool) \<Rightarrow> ('a \<Rightarrow> 'a) \<Rightarrow> 'a list \<Rightarrow> 'a list" where
  "update_first p f [] = []"
| "update_first p f (x # xs) = (if p x then f x # xs else x # update_first p f xs)"

section \<open>TaskManager\<close>

text \<open>\<^verbatim>\<open>register_client\<close>: every client with the same page URL is deleted, the new
  client gets the id \<^verbatim>\<open>c{len(clients)}_{int(time.time()) % 10000}\<close>. The second
  argument is the connection, the fourth the reading of \<^verbatim>\<open>time.time()\<close> in whole
  seconds.\<close>

definition register_client :: "nat \<Rightarrow> string \<Rightarrow> nat \<Rightarrow> state \<Rightarrow> (string \<times> nat) \<times> state" where
  "register_client websocket page_url unix_time s =
     (let cs = filter (\<lambda>(cid, info). url info \<noteq> page_url) (clients s);
          cid = ''c'' @ dec (length cs) @ ''_'' @ dec (unix_time mod 10000);
          pn = next_page_number s
      in ((cid, pn),
          s\<lparr>clients := AList.update cid
               \<lparr>ws = websocket, url = page_url, busy = False, task_id = None,
                page_number = pn, last_task_end = None\<rparr> cs,
            next_page_number := pn + 1\<rparr>))"

definition remove_client :: "string \<Rightarrow> state \<Rightarrow> state" where
  "remove_client cid s =
     (case map_of (clients s) cid of
        None \<Rightarrow> s
      | Some info \<Rightarrow>
          s\<lparr>tasks :=
              (if truthy (task_id info)
               then map (\<lambda>t. if Some (tid t) = task_id info \<and> status t = Assigned
                              then t\<lparr>status := Queued\<rparr> else t) (tasks s)
               else tasks s),
            clients := AList.delete cid (clients s)\<rparr>)"

text \<open>\<^verbatim>\<open>get_idle_client\<close>: the first client, in registration order, that is not busy
  and whose last task ended at least the cooldown ago.\<close>

definition cooling :: "time \<Rightarrow> client \<Rightarrow> bool" where
  "cooling now info =
     (case last_task_end info of
        None \<Rightarrow> False
      | Some e \<Rightarrow> now - e < seconds CLIENT_COOLDOWN_SECONDS)"

definition get_idle_client :: "time \<Rightarrow> state \<Rightarrow> (string \<times> client) option" where
  "get_idle_client now s = find (\<lambda>(cid, info). \<not> busy info \<and> \<not> cooling now info) (clients s)"

definition mark_client_busy :: "string \<Rightarrow> string \<Rightarrow> state \<Rightarrow> state" where
  "mark_client_busy cid t s =
     (if map_of (clients s) cid \<noteq> None
      then s\<lparr>clients := AList.map_entry cid (\<lambda>i. i\<lparr>busy := True, task_id := Some t\<rparr>) (clients s),
             tasks := update_first (\<lambda>k. tid k = t) (\<lambda>k. k\<lparr>client_id := Some cid\<rparr>) (tasks s)\<rparr>
      else s)"

definition mark_client_idle :: "string \<Rightarrow> time \<Rightarrow> state \<Rightarrow> state" where
  "mark_client_idle cid now s =
     (if map_of (clients s) cid \<noteq> None
      then s\<lparr>clients := AList.map_entry cid
               (\<lambda>i. i\<lparr>busy := False, task_id := None, last_task_end := Some now\<rparr>) (clients s)\<rparr>
      else s)"

definition get_client_count :: "state \<Rightarrow> nat \<times> nat" where
  "get_client_count s = (length (clients s), length (filter (\<lambda>(cid, info). busy info) (clients s)))"

definition update_task_status_detail :: "string \<Rightarrow> string \<Rightarrow> state \<Rightarrow> bool \<times> state" where
  "update_task_status_detail t d s =
     (list_ex (\<lambda>k. tid k = t) (tasks s),
      s\<lparr>tasks := update_first (\<lambda>k. tid k = t) (\<lambda>k. k\<lparr>status_detail := Text d\<rparr>) (tasks s)\<rparr>)"

text \<open>\<^verbatim>\<open>add_task\<close>. The id is \<^verbatim>\<open>task_{len(tasks)}_{stamp}\<close>, where \<open>stamp\<close> is the
  clock reading as \<^verbatim>\<open>strftime('%H%M%S%f')\<close> prints it. The reference images may be
  \<^verbatim>\<open>None\<close> (the default of the parameter).\<close>

definition add_task ::
  "string \<Rightarrow> string \<Rightarrow> string \<Rightarrow> string \<Rightarrow> string list option \<Rightarrow> string option \<Rightarrow>
   string option \<Rightarrow> string \<Rightarrow> state \<Rightarrow> task option \<times> state" where
  "add_task prompt0 ttype ratio res refs odir row stamp s =
     (let p = strip prompt0 in
      if p = [] then (None, s)
      else
        let refs1 = (if ttype = ''Text to Video'' then Some [] else refs);
            t = \<lparr>tid = ''task_'' @ dec (length (tasks s)) @ ''_'' @ stamp,
                 prompt = p,
                 status = Queued,
                 status_detail = Text [],
                 file_ext = (if contains ''Video'' ttype then ''.mp4'' else ''.png''),
                 output_dir = odir,
                 client_id = None,
                 task_type = ttype,
                 aspect_ratio = ratio,
                 resolution = res,
                 reference_images = (case refs1 of None \<Rightarrow> [] | Some r \<Rightarrow> r),
                 start_time = None,
                 end_time = None,
                 import_row_number = row,
                 saved_path = None,
                 output_dir_path = None,
                 preview_base64 = None\<rparr>
        in (Some t, s\<lparr>tasks := tasks s @ [t]\<rparr>))"

text \<open>\<^verbatim>\<open>get_next_task\<close> moves the cursor over every task that is not waiting and
  returns the position of the first waiting one it meets; the task returned by the
  source is the element at that position.\<close>

function get_next_task :: "state \<Rightarrow> nat option \<times> state" where
  "get_next_task s =
     (if current_index s < length (tasks s)
      then (if status (tasks s ! current_index s) = Queued
            then (Some (current_index s), s)
            else get_next_task (s\<lparr>current_index := current_index s + 1\<rparr>))
      else (None, s))"
  by pat_completeness auto
termination
  by (relation "measure (\<lambda>s. length (tasks s) - current_index s)") auto

declare get_next_task.simps [simp del]

text \<open>\<^verbatim>\<open>check_timeout_tasks\<close>: one pass over the tasks, in order. A task that is
  processing, has a start time and is older than the timeout becomes timed out, and the
  client its \<^verbatim>\<open>client_id\<close> names, when registered, is released. The result is the
  list of the tasks that timed out.\<close>

definition expired :: "time \<Rightarrow> task \<Rightarrow> bool" where
  "expired now t =
     (status t = Assigned \<and>
      (case start_time t of None \<Rightarrow> False
       | Some st \<Rightarrow> now - st > seconds TASK_TIMEOUT_SECONDS))"

definition time_out :: "time \<Rightarrow> task \<Rightarrow> task" where
  "time_out now t =
     t\<lparr>status := TimedOut, end_time := Some now,
       status_detail := TimeoutDetail (nat (TASK_TIMEOUT_SECONDS div 60))\<rparr>"

definition release :: "string option \<Rightarrow> (string \<times> client) list \<Rightarrow> (string \<times> client) list" where
  "release c cs =
     (case c of
        None \<Rightarrow> cs
      | Some cid \<Rightarrow>
          if cid \<noteq> [] \<and> map_of cs cid \<noteq> None
          then AList.map_entry cid (\<lambda>i. i\<lparr>busy := False, task_id := None\<rparr>) cs
          else cs)"

fun timeout_loop ::
  "time \<Rightarrow> task list \<Rightarrow> (string \<times> client) list \<Rightarrow> task list \<times> (string \<times> client) list \<times> task list" where
  "timeout_loop now [] cs = ([], cs, [])"
| "timeout_loop now (t # ts) cs =
     (if expired now t
      then (case timeout_loop now ts (release (client_id t) cs) of
              (ts', cs', out) \<Rightarrow> (time_out now t # ts', cs', time_out now t # out))
      else (case timeout_loop now ts cs of
              (ts', cs', out) \<Rightarrow> (t # ts', cs', out)))"

definition check_timeout_tasks :: "time \<Rightarrow> state \<Rightarrow> task list \<times> state" where
  "check_timeout_tasks now s =
     (case timeout_loop now (tasks s) (clients s) of
        (ts', cs', out) \<Rightarrow> (out, s\<lparr>tasks := ts', clients := cs'\<rparr>))"

definition clear_tasks :: "state \<Rightarrow> state" where
  "clear_tasks s = s\<lparr>tasks := [], current_index := 0, is_running := False\<rparr>"

text \<open>How the sweep may change an entry of the registry: not at all, or by clearing its
  busy flag and task id.\<close>

definition freed :: "(string \<times> client) \<Rightarrow> (string \<times> client) \<Rightarrow> bool" where
  "freed x y = (fst y = fst x \<and> (snd y = snd x \<or> snd y = (snd x)\<lparr>busy := False, task_id := None\<rparr>))"

section \<open>The world outside: files, images, transports\<close>

text \<open>
  What the code asks of \<^verbatim>\<open>pathlib\<close>, the file system and the image library is a
  record of functions, one snapshot for each operation: the output root
  (\<^verbatim>\<open>OUTPUT_DIR\<close>, also passed to the socket routes as \<^verbatim>\<open>output_dir_base\<close>),
  \<^verbatim>\<open>Path.is_absolute\<close>, the path operator \<^verbatim>\<open>/\<close>, \<^verbatim>\<open>Path.absolute\<close>,
  \<^verbatim>\<open>Path.exists\<close>, whether decoding a base64 payload and writing it to a path
  succeeds, the thumbnail of an image file and the compressed base64 form of an image
  file (\<open>None\<close> when the library fails). Whether a send on a worker's transport raises
  is a Boolean argument of the operation that sends.
\<close>

record env =
  OUTPUT_DIR :: string
  is_absolute :: "string \<Rightarrow> bool"
  joinpath :: "string \<Rightarrow> string \<Rightarrow> string"
  absolute :: "string \<Rightarrow> string"
  path_exists :: "string \<Rightarrow> bool"
  write_ok :: "string \<Rightarrow> string \<Rightarrow> bool"
  thumbnail :: "string \<Rightarrow> string option"
  compress :: "string \<Rightarrow> string option"

record task_message =
  m_task_id :: string
  m_prompt :: string
  m_task_type :: string
  m_aspect_ratio :: string
  m_resolution :: string
  m_reference_images :: "string list"

text \<open>What a handler asks of the file system: making a directory, and decoding a payload
  and writing it to a path.\<close>

datatype effect = Mkdir string | WriteFile string string

text \<open>The directory a task's file goes to: its own output directory, taken below the
  output root when it is relative, or the output root.\<close>

definition resolve_dir :: "env \<Rightarrow> task \<Rightarrow> string" where
  "resolve_dir e t =
     (case output_dir t of
        None \<Rightarrow> OUTPUT_DIR e
      | Some d \<Rightarrow>
          if d = [] then OUTPUT_DIR e
          else if is_absolute e d then d
          else joinpath e (OUTPUT_DIR e) d)"

text \<open>Reference images that are paths of existing files are compressed when the task
  is sent; an image whose compression fails is left out.\<close>

definition resolve_reference_images :: "env \<Rightarrow> string list \<Rightarrow> string list" where
  "resolve_reference_images e imgs =
     concat (map (\<lambda>img.
       if img \<noteq> [] \<and> \<not> startswith img ''/9j/'' \<and> \<not> startswith img ''iVBOR'' \<and> path_exists e img
       then (case compress e img of
               None \<Rightarrow> []
             | Some b \<Rightarrow> if b \<noteq> [] then [b] else [])
       else [img]) imgs)"

definition task_message_of :: "env \<Rightarrow> task \<Rightarrow> task_message" where
  "task_message_of e t =
     \<lparr>m_task_id = tid t, m_prompt = prompt t, m_task_type = task_type t,
      m_aspect_ratio = aspect_ratio t, m_resolution = resolution t,
      m_reference_images = resolve_reference_images e (reference_images t)\<rparr>"

section \<open>Api: retry, start, the dispatch loop\<close>

text \<open>\<^verbatim>\<open>start_execution\<close> sets the running flag when the event loop is ready, a client
  is connected and the task list is not empty (it then schedules the dispatch loop, whose
  iterations are separate steps here).\<close>

definition start_execution :: "bool \<Rightarrow> state \<Rightarrow> state" where
  "start_execution loop_ready s =
     (if \<not> loop_ready then s
      else if fst (get_client_count s) = 0 then s
      else if tasks s = [] then s
      else s\<lparr>is_running := True\<rparr>)"

definition stop_execution :: "state \<Rightarrow> state" where
  "stop_execution s = s\<lparr>is_running := False\<rparr>"

text \<open>The errors of the \<^verbatim>\<open>Api\<close> methods below, Chinese texts in the source: the task
  index is invalid, only failed tasks can be retried, there is no failed task, only
  waiting tasks can be run, no client is connected.\<close>

datatype retry_error = BadIndex | NotFailed | NoFailedTasks | NotQueued | NoClients

definition failed_status :: "status \<Rightarrow> bool" where
  "failed_status st = (st = Failed \<or> st = TimedOut \<or> st = SaveFailed)"

definition reset_task :: "task \<Rightarrow> task" where
  "reset_task t =
     t\<lparr>status := Queued, status_detail := Text [], start_time := None, end_time := None,
       client_id := None\<rparr>"

definition retry_task :: "int \<Rightarrow> bool \<Rightarrow> state \<Rightarrow> (retry_error + unit) \<times> state" where
  "retry_task task_index loop_ready s =
     (if task_index < 0 \<or> task_index \<ge> int (length (tasks s)) then (Inl BadIndex, s)
      else
        let i = nat task_index; t = tasks s ! i in
        if \<not> failed_status (status t) then (Inl NotFailed, s)
        else
          let s1 = s\<lparr>tasks := (tasks s)[i := reset_task t],
                     current_index := (if current_index s > i then i else current_index s)\<rparr>
          in (Inr (), if \<not> is_running s1 then start_execution loop_ready s1 else s1))"

definition retry_all_failed :: "bool \<Rightarrow> state \<Rightarrow> (retry_error + nat) \<times> state" where
  "retry_all_failed loop_ready s =
     (let failed_indices = filter (\<lambda>i. failed_status (status (tasks s ! i))) [0..<length (tasks s)] in
      if failed_indices = [] then (Inl NoFailedTasks, s)
      else
        let ts = fold (\<lambda>i ts. ts[i := reset_task (ts ! i)]) failed_indices (tasks s);
            min_index = fold (\<lambda>i m. if i < m then i else m) failed_indices (length (tasks s));
            s1 = s\<lparr>tasks := ts,
                   current_index := (if current_index s > min_index then min_index else current_index s)\<rparr>
        in (Inr (length failed_indices),
            if \<not> is_running s1 then start_execution loop_ready s1 else s1))"

text \<open>\<^verbatim>\<open>run_single_task\<close> moves a waiting task to the cursor: \<^verbatim>\<open>pop\<close> at its
  position, then \<^verbatim>\<open>insert\<close> at the cursor (an insert past the end appends).\<close>

definition run_single_task :: "int \<Rightarrow> bool \<Rightarrow> state \<Rightarrow> (retry_error + unit) \<times> state" where
  "run_single_task task_index loop_ready s =
     (if task_index < 0 \<or> task_index \<ge> int (length (tasks s)) then (Inl BadIndex, s)
      else
        let i = nat task_index; t = tasks s ! i in
        if status t \<noteq> Queued then (Inl NotQueued, s)
        else if fst (get_client_count s) = 0 then (Inl NoClients, s)
        else
          let s1 = (if i \<noteq> current_index s
                    then let popped = take i (tasks s) @ drop (Suc i) (tasks s)
                         in s\<lparr>tasks := take (current_index s) popped @ [t] @ drop (current_index s) popped\<rparr>
                    else s)
          in (Inr (), if \<not> is_running s1 then start_execution loop_ready s1 else s1))"

text \<open>
  One pass through the body of the loop of \<^verbatim>\<open>_execute_tasks\<close>, taken while the
  running flag is set. In order: the timeout sweep; the next waiting task (none: the loop
  ends when no client is busy, and waits otherwise); no client connected: wait; no idle
  client: wait; the file of an imported task exists: the task is done, nothing is sent;
  else the task is bound to the idle client and sent, and a send that raises puts the
  task back to waiting and the client back to idle.
\<close>

datatype outcome =
    Finished
  | Waiting
  | Skipped
  | Sent string task_message
  | SendFailed string task_message

definition skip_path :: "env \<Rightarrow> task \<Rightarrow> string option" where
  "skip_path e t =
     (case import_row_number t of
        None \<Rightarrow> None
      | Some r \<Rightarrow>
          if r = [] then None
          else let filepath = joinpath e (resolve_dir e t) (r @ file_ext t)
               in if path_exists e filepath then Some filepath else None)"

definition skip_task :: "env \<Rightarrow> time \<Rightarrow> string \<Rightarrow> task \<Rightarrow> task" where
  "skip_task e now filepath t =
     t\<lparr>status := Succeeded,
       end_time := Some now,
       saved_path := Some (absolute e filepath),
       output_dir_path := Some (resolve_dir e t),
       status_detail := SkipDetail,
       preview_base64 :=
         (if file_ext t = ''.png'' \<or> file_ext t = ''.jpg''
          then thumbnail e filepath else preview_base64 t)\<rparr>"

definition execute_iteration :: "env \<Rightarrow> time \<Rightarrow> bool \<Rightarrow> state \<Rightarrow> outcome \<times> state" where
  "execute_iteration e now send_ok s0 =
     (case get_next_task (snd (check_timeout_tasks now s0)) of
        (None, s) \<Rightarrow>
          if \<not> list_ex (\<lambda>(cid, info). busy info) (clients s)
          then (Finished, s\<lparr>is_running := False\<rparr>)
          else (Waiting, s)
      | (Some i, s) \<Rightarrow>
          if fst (get_client_count s) = 0 then (Waiting, s)
          else
            (case get_idle_client now s of
               None \<Rightarrow> (Waiting, s)
             | Some (cid, info) \<Rightarrow>
                 let t = tasks s ! i in
                 (case skip_path e t of
                    Some filepath \<Rightarrow>
                      (Skipped, s\<lparr>tasks := (tasks s)[i := skip_task e now filepath t],
                                  current_index := current_index s + 1\<rparr>)
                  | None \<Rightarrow>
                      let s1 = s\<lparr>tasks := (tasks s)[i := t\<lparr>status := Assigned, start_time := Some now\<rparr>]\<rparr>;
                          s2 = mark_client_busy cid (tid t) s1;
                          s3 = s2\<lparr>current_index := current_index s2 + 1\<rparr>;
                          msg = task_message_of e t
                      in if send_ok then (Sent cid msg, s3)
                         else (SendFailed cid msg,
                               mark_client_idle cid now
                                 (s3\<lparr>tasks := (tasks s3)[i := (tasks s3 ! i)\<lparr>status := Queued\<rparr>]\<rparr>)))))"

definition execute_tasks_step :: "env \<Rightarrow> time \<Rightarrow> bool \<Rightarrow> state \<Rightarrow> state" where
  "execute_tasks_step e now send_ok s =
     (if is_running s then snd (execute_iteration e now send_ok s) else s)"

section \<open>The immediate dispatch of chat\_completions\<close>

text \<open>
  \<^verbatim>\<open>chat_completions\<close> from the client count on (the model name, the prompt and the
  number of images have been validated before, and change no state): no client gives
  503; the task is added (a failure gives 500); the first idle client, if any, gets the
  task at once, and a send that raises puts task and client back. The execution loop is
  started when it is not running and an \<^verbatim>\<open>Api\<close> instance is attached (\<open>Some\<close> of
  whether its event loop is ready).
\<close>

datatype chat_outcome =
    NoClients503
  | CreateFailed500
  | NotDispatched string
  | ChatSent string string task_message
  | ChatSendFailed string string task_message

definition chat_completions ::
  "string \<Rightarrow> string \<Rightarrow> string \<Rightarrow> string \<Rightarrow> string list \<Rightarrow> string \<Rightarrow> time \<Rightarrow> bool \<Rightarrow>
   bool option \<Rightarrow> state \<Rightarrow> chat_outcome \<times> state" where
  "chat_completions prompt0 ttype ratio res images stamp now send_ok api s0 =
     (if fst (get_client_count s0) = 0 then (NoClients503, s0)
      else
        (case add_task prompt0 ttype ratio res (Some images) None None stamp s0 of
           (None, s) \<Rightarrow> (CreateFailed500, s)
         | (Some t, s) \<Rightarrow>
             let i = length (tasks s) - 1;
                 msg = \<lparr>m_task_id = tid t, m_prompt = prompt0, m_task_type = ttype,
                        m_aspect_ratio = ratio, m_resolution = res, m_reference_images = images\<rparr>;
                 r = (case get_idle_client now s of
                        None \<Rightarrow> (NotDispatched (tid t), s)
                      | Some (cid, info) \<Rightarrow>
                          let s1 = s\<lparr>tasks := (tasks s)[i := (tasks s ! i)\<lparr>status := Assigned, start_time := Some now\<rparr>]\<rparr>;
                              s2 = mark_client_busy cid (tid t) s1
                          in if send_ok then (ChatSent (tid t) cid msg, s2)
                             else (ChatSendFailed (tid t) cid msg,
                                   mark_client_idle cid now
                                     (s2\<lparr>tasks := (tasks s2)[i := (tasks s2 ! i)\<lparr>status := Queued\<rparr>]\<rparr>)))
             in (fst r,
                 (case api of
                    None \<Rightarrow> snd r
                  | Some loop_ready \<Rightarrow>
                      if \<not> is_running (snd r) then start_execution loop_ready (snd r) else snd r))))"

section \<open>The worker socket\<close>

text \<open>The messages of a registered worker. A task id or an error that is missing or
  empty is false in the source's tests; both are optional strings here.\<close>

datatype ws_msg =
    ImageChunk "string option" int int string
  | ImageData "string option" string
  | Result "string option" "string option"
  | Status string
  | Other

text \<open>
  The chunk buffer of one \<^verbatim>\<open>image_chunk\<close> message: the chunk is stored under its
  index; when the number of stored chunks equals the declared total (and that is
  positive), the chunks \<open>0, \<dots>, total - 1\<close> are joined and the task's entry is
  deleted. A missing index raises \<^verbatim>\<open>KeyError\<close> before the entry is deleted.
\<close>

datatype chunk_result = Buffered | Complete string | KeyError

definition image_chunk ::
  "string \<Rightarrow> int \<Rightarrow> int \<Rightarrow> string \<Rightarrow> (string \<times> (int \<times> string) list) list \<Rightarrow>
   chunk_result \<times> (string \<times> (int \<times> string) list) list" where
  "image_chunk t chunk_index total_chunks chunk_data cb =
     (let entry = AList.update chunk_index chunk_data (case map_of cb t of None \<Rightarrow> [] | Some b \<Rightarrow> b);
          cb1 = AList.update t entry cb
      in if total_chunks > 0 \<and> int (length entry) = total_chunks
         then (case those (map (\<lambda>i. map_of entry (int i)) [0..<nat total_chunks]) of
                 None \<Rightarrow> (KeyError, cb1)
               | Some parts \<Rightarrow> (Complete (concat parts), AList.delete t cb1))
         else (Buffered, cb1))"

text \<open>\<^verbatim>\<open>str.lower\<close> on the code points below 256.\<close>

definition lower_char :: "char \<Rightarrow> char" where
  "lower_char c =
     (let n = (of_char c :: nat)
      in if (65 \<le> n \<and> n \<le> 90) \<or> (192 \<le> n \<and> n \<le> 222 \<and> n \<noteq> 215) then char_of (n + 32) else c)"

text \<open>The name of a file that does not exist yet: the time stamp, then the time stamp
  with a counter from 1 on. The loop runs for as long as the candidates exist.\<close>

partial_function (option) free_name ::
  "env \<Rightarrow> string \<Rightarrow> string \<Rightarrow> string \<Rightarrow> string \<Rightarrow> nat \<Rightarrow> string option" where
  "free_name e p stamp ext filename counter =
     (if path_exists e (joinpath e p filename)
      then free_name e p stamp ext (stamp @ ''_'' @ dec counter @ ext) (counter + 1)
      else Some filename)"

fun first_index :: "('a \<Rightarrow> bool) \<Rightarrow> 'a list \<Rightarrow> nat option" where
  "first_index p [] = None"
| "first_index p (x # xs) = (if p x then Some 0 else map_option Suc (first_index p xs))"

text \<open>
  \<^verbatim>\<open>_handle_image_result\<close>: the first task with the id gets the payload saved under
  its directory and becomes done, or download-failed when the save fails; then, and also
  when no task has the id, the sending client is marked idle. \<open>stamp\<close> is the clock
  reading as \<^verbatim>\<open>strftime("%Y-%m-%d_%H-%M-%S")\<close> prints it. The result lists the
  directories made and the file written, and is \<open>None\<close> when the search for a free file
  name does not end.
\<close>

definition handle_image_result ::
  "env \<Rightarrow> time \<Rightarrow> string \<Rightarrow> string \<Rightarrow> string \<Rightarrow> string \<Rightarrow> state \<Rightarrow> (effect list \<times> state) option" where
  "handle_image_result e now stamp cid t base64_data s =
     (case first_index (\<lambda>k. tid k = t) (tasks s) of
        None \<Rightarrow> Some ([], mark_client_idle cid now s)
      | Some i \<Rightarrow>
          let k = tasks s ! i; p = resolve_dir e k; ext = file_ext k in
          (case (case import_row_number k of
                   None \<Rightarrow> free_name e p stamp ext (stamp @ ext) 1
                 | Some r \<Rightarrow> if r = [] then free_name e p stamp ext (stamp @ ext) 1
                             else Some (r @ ext)) of
             None \<Rightarrow> None
           | Some filename \<Rightarrow>
               let filepath = joinpath e p filename;
                   k1 = (if write_ok e filepath base64_data
                         then k\<lparr>status := Succeeded,
                                end_time := Some now,
                                saved_path := Some (absolute e filepath),
                                output_dir_path := Some p,
                                preview_base64 :=
                                  (if map lower_char ext = ''.png'' \<or> map lower_char ext = ''.jpg''
                                   then Some (case thumbnail e (absolute e filepath) of
                                                None \<Rightarrow> [] | Some b \<Rightarrow> b)
                                   else preview_base64 k)\<rparr>
                         else k\<lparr>status := SaveFailed, end_time := Some now\<rparr>)
               in Some ([Mkdir p, Mkdir p, WriteFile filepath base64_data],
                        mark_client_idle cid now (s\<lparr>tasks := (tasks s)[i := k1]\<rparr>))))"

text \<open>\<^verbatim>\<open>result\<close>: a message with an error and a task id fails the first task with
  that id; in every case the sending client is marked idle.\<close>

definition handle_result :: "time \<Rightarrow> string \<Rightarrow> string option \<Rightarrow> string option \<Rightarrow> state \<Rightarrow> state" where
  "handle_result now cid t err s =
     (let s1 = (if truthy err \<and> truthy t
                then s\<lparr>tasks := update_first (\<lambda>k. Some (tid k) = t)
                       (\<lambda>k. k\<lparr>status := Failed, status_detail := Text (the err), end_time := Some now\<rparr>)
                       (tasks s)\<rparr>
                else s)
      in if cid \<noteq> [] then mark_client_idle cid now s1 else s1)"

definition handle_status :: "string \<Rightarrow> string \<Rightarrow> state \<Rightarrow> state" where
  "handle_status cid m s =
     (if cid \<noteq> []
      then (case map_of (clients s) cid of
              None \<Rightarrow> s
            | Some info \<Rightarrow>
                (case task_id info of
                   None \<Rightarrow> s
                 | Some t \<Rightarrow> if t \<noteq> [] then snd (update_task_status_detail t m s) else s))
      else s)"

text \<open>One message on the connection of client \<open>cid\<close>. The connection stays open, or an
  exception ends it, and then the client is removed (the \<^verbatim>\<open>finally\<close> block).\<close>

datatype conn = Open | Closed

definition ws_message ::
  "env \<Rightarrow> time \<Rightarrow> string \<Rightarrow> string \<Rightarrow> ws_msg \<Rightarrow> state \<Rightarrow> (conn \<times> effect list \<times> state) option" where
  "ws_message e now stamp cid msg s =
     (case msg of
        ImageChunk t chunk_index total_chunks chunk_data \<Rightarrow>
          if \<not> truthy t then Some (Open, [], s)
          else
            (case image_chunk (the t) chunk_index total_chunks chunk_data (chunk_buffer s) of
               (Buffered, cb) \<Rightarrow> Some (Open, [], s\<lparr>chunk_buffer := cb\<rparr>)
             | (KeyError, cb) \<Rightarrow> Some (Closed, [], remove_client cid (s\<lparr>chunk_buffer := cb\<rparr>))
             | (Complete full_base64, cb) \<Rightarrow>
                 map_option (\<lambda>(fx, s1). (Open, fx, s1))
                   (handle_image_result e now stamp cid (the t) full_base64 (s\<lparr>chunk_buffer := cb\<rparr>)))
      | ImageData t image_data \<Rightarrow>
          if \<not> truthy t then Some (Open, [], s)
          else map_option (\<lambda>(fx, s1). (Open, fx, s1))
                 (handle_image_result e now stamp cid (the t) image_data s)
      | Result t err \<Rightarrow> Some (Open, [], handle_result now cid t err s)
      | Status m \<Rightarrow> Some (Open, [], handle_status cid m s)
      | Other \<Rightarrow> Some (Open, [], s))"

text \<open>A transfer: the \<^verbatim>\<open>image_chunk\<close> messages for task \<open>t\<close> with the indices of
  \<open>is\<close>, in that order, each declaring \<open>n\<close> chunks and carrying the payload of its
  index; the result lists what each message did and gives the buffer left behind.\<close>

fun deliver ::
  "string \<Rightarrow> nat \<Rightarrow> (nat \<Rightarrow> string) \<Rightarrow> nat list \<Rightarrow> (string \<times> (int \<times> string) list) list \<Rightarrow>
   chunk_result list \<times> (string \<times> (int \<times> string) list) list" where
  "deliver t n payload [] cb = ([], cb)"
| "deliver t n payload (i # is) cb =
     (case image_chunk t (int i) (int n) (payload i) cb of
        (r, cb1) \<Rightarrow> (case deliver t n payload is cb1 of (rs, cb2) \<Rightarrow> (r # rs, cb2)))"

text \<open>The chunks buffered for a task, and the chunks of \<open>is\<close> stored on top of the entry
  \<open>e\<close>.\<close>

definition entry_of :: "(string \<times> (int \<times> string) list) list \<Rightarrow> string \<Rightarrow> (int \<times> string) list" where
  "entry_of cb t = (case map_of cb t of None \<Rightarrow> [] | Some b \<Rightarrow> b)"

definition stored :: "(nat \<Rightarrow> string) \<Rightarrow> nat list \<Rightarrow> (int \<times> string) list \<Rightarrow> (int \<times> string) list" where
  "stored payload is e = fold (\<lambda>i. AList.update (int i) (payload i)) is e"

section \<open>Runs of the server\<close>

text \<open>Everything that changes the task store or the worker registry, as events, each
  with the readings of the outside world it needs.\<close>

datatype event =
    Register nat string nat
  | Disconnect string
  | Message env time string string ws_msg
  | LoopIteration env time bool
  | ChatCompletion string string string string "string list" string time bool "bool option"
  | AddTask string string string string "string list option" "string option" "string option" string
  | RetryTask int bool
  | RetryAllFailed bool
  | ClearTasks
  | RunSingleTask int bool
  | StartExecution bool
  | StopExecution

fun apply_event :: "event \<Rightarrow> state \<Rightarrow> state option" where
  "apply_event (Register w u n) s = Some (snd (register_client w u n s))"
| "apply_event (Disconnect cid) s = Some (remove_client cid s)"
| "apply_event (Message e now stamp cid msg) s =
     map_option (\<lambda>(c, fx, s1). s1) (ws_message e now stamp cid msg s)"
| "apply_event (LoopIteration e now send_ok) s = Some (execute_tasks_step e now send_ok s)"
| "apply_event (ChatCompletion p ttype ratio res images stamp now send_ok api) s =
     Some (snd (chat_completions p ttype ratio res images stamp now send_ok api s))"
| "apply_event (AddTask p ttype ratio res refs odir row stamp) s =
     Some (snd (add_task p ttype ratio res refs odir row stamp s))"
| "apply_event (RetryTask i r) s = Some (snd (retry_task i r s))"
| "apply_event (RetryAllFailed r) s = Some (snd (retry_all_failed r s))"
| "apply_event ClearTasks s = Some (clear_tasks s)"
| "apply_event (RunSingleTask i r) s = Some (snd (run_single_task i r s))"
| "apply_event (StartExecution r) s = Some (start_execution r s)"
| "apply_event StopExecution s = Some (stop_execution s)"

fun run :: "event list \<Rightarrow> state \<Rightarrow> state option" where
  "run [] s = Some s"
| "run (ev # evs) s = (case apply_event ev s of None \<Rightarrow> None | Some s1 \<Rightarrow> run evs s1)"

text \<open>
  The pairing of clients and tasks in the registry. A client holds the task id \<open>t\<close>
  when its \<^verbatim>\<open>task_id\<close> is \<open>t\<close>; \<open>holders\<close> lists the clients that hold \<open>t\<close>;
  \<open>single_holder\<close> says that no task id is held by two clients; an entry is consistent
  when its busy flag is set exactly when it holds a task id. \<open>bound_task\<close> is the task
  id an event binds to a client for good: the id of the task that a loop pass or
  \<^verbatim>\<open>chat_completions\<close> sends successfully.
\<close>

definition holds :: "string \<Rightarrow> string \<times> client \<Rightarrow> bool" where
  "holds t x = (task_id (snd x) = Some t)"

definition holders :: "string \<Rightarrow> state \<Rightarrow> string list" where
  "holders t s = map fst (filter (holds t) (clients s))"

definition single_holder :: "state \<Rightarrow> bool" where
  "single_holder s =
     list_all (\<lambda>x. case task_id (snd x) of None \<Rightarrow> True | Some t \<Rightarrow> length (holders t s) \<le> 1)
       (clients s)"

definition consistent :: "string \<times> client \<Rightarrow> bool" where
  "consistent x = (busy (snd x) = (task_id (snd x) \<noteq> None))"

definition busy_iff_assigned :: "state \<Rightarrow> bool" where
  "busy_iff_assigned s = list_all consistent (clients s)"

fun bound_task :: "event \<Rightarrow> state \<Rightarrow> string option" where
  "bound_task (LoopIteration e now send_ok) s =
     (if is_running s
      then (case fst (execute_iteration e now send_ok s) of
              Sent cid msg \<Rightarrow> Some (m_task_id msg)
            | _ \<Rightarrow> None)
      else None)"
| "bound_task (ChatCompletion p ttype ratio res images stamp now send_ok api) s =
     (case fst (chat_completions p ttype ratio res images stamp now send_ok api s) of
        ChatSent t cid msg \<Rightarrow> Some t
      | _ \<Rightarrow> None)"
| "bound_task ev s = None"

text \<open>A change of the registry that keeps every consistent registry consistent and gives no
  task id a further holder.\<close>

definition quiet :: "(string \<times> client) list \<Rightarrow> (string \<times> client) list \<Rightarrow> bool" where
  "quiet cs cs' =
     ((list_all consistent cs \<longrightarrow> list_all consistent cs') \<and>
      (\<forall>t. length (filter (holds t) cs') \<le> length (filter (holds t) cs)))"

section \<open>Sample data\<close>

text \<open>A POSIX-like world with one existing file, a task as \<^verbatim>\<open>add_task\<close> makes it,
  a freshly registered client, and a state in which that client works on that task.\<close>

definition example_env :: env where
  "example_env =
     \<lparr>OUTPUT_DIR = ''output'',
      is_absolute = (\<lambda>p. startswith p ''/''),
      joinpath = (\<lambda>a b. a @ ''/'' @ b),
      absolute = (\<lambda>p. ''/srv/'' @ p),
      path_exists = (\<lambda>p. p = ''output/7.png''),
      write_ok = (\<lambda>p d. True),
      thumbnail = (\<lambda>p. Some ''thumb''),
      compress = (\<lambda>p. None)\<rparr>"

definition example_task :: task where
  "example_task =
     \<lparr>tid = ''task_0_120000000000'', prompt = ''a cat'', status = Queued,
      status_detail = Text [], file_ext = ''.png'', output_dir = None, client_id = None,
      task_type = ''Create Image'', aspect_ratio = ''16:9'', resolution = ''4K'',
      reference_images = [], start_time = None, end_time = None, import_row_number = None,
      saved_path = None, output_dir_path = None, preview_base64 = None\<rparr>"

definition example_client :: client where
  "example_client =
     \<lparr>ws = 1, url = ''https://labs/page1'', busy = False, task_id = None, page_number = 1,
      last_task_end = None\<rparr>"

definition busy_example :: state where
  "busy_example =
     init_state\<lparr>tasks := [example_task\<lparr>status := Assigned, start_time := Some 0,
                    client_id := Some ''c0_100''\<rparr>],
       current_index := 1,
       clients := [(''c0_100'', example_client\<lparr>busy := True,
                      task_id := Some ''task_0_120000000000''\<rparr>)]\<rparr>"

definition failed_example :: state where
  "failed_example =
     init_state\<lparr>tasks := [example_task\<lparr>status := Failed, status_detail := Text ''boom'',
                    start_time := Some 0, end_time := Some 5, client_id := Some ''c0_100''\<rparr>],
       current_index := 1\<rparr>"

text \<open>An imported task with row number 7 waiting at the cursor, and the same state with
  a task that was not imported; one idle client is connected in both.\<close>

definition import_example :: state where
  "import_example =
     init_state\<lparr>tasks := [example_task\<lparr>import_row_number := Some ''7''\<rparr>],
       is_running := True,
       clients := [(''c0_100'', example_client)]\<rparr>"

definition queued_example :: state where
  "queued_example =
     init_state\<lparr>tasks := [example_task], is_running := True,
       clients := [(''c0_100'', example_client)]\<rparr>"

definition example_payload :: "nat \<Rightarrow> string" where
  "example_payload i = [''aa'', ''bb'', ''cc''] ! i"

text \<open>
  A run: two workers register, a task is added and sent to the first worker; the second
  worker reports an error for that task, the task is retried, and the loop sends it to
  the second worker while the first still holds it. The other two definitions read the
  registry and the task list off a state.
\<close>

definition first_dispatch :: "event list" where
  "first_dispatch =
     [Register 1 ''https://labs/page1'' 100,
      Register 2 ''https://labs/page2'' 100,
      AddTask ''a cat'' ''Create Image'' ''16:9'' ''4K'' None None None ''120000000000'',
      StartExecution True,
      LoopIteration example_env 0 True]"

definition double_dispatch :: "event list" where
  "double_dispatch =
     first_dispatch @
     [Message example_env 1000000 ''2026-01-01_00-00-00'' ''c1_100''
        (Result (Some ''task_0_120000000000'') (Some ''boom'')),
      RetryTask 0 True,
      LoopIteration example_env 5000000 True]"

definition assignments :: "state \<Rightarrow> (string \<times> bool \<times> string option) list" where
  "assignments s = map (\<lambda>(c, i). (c, busy i, task_id i)) (clients s)"

definition bindings :: "state \<Rightarrow> (string \<times> status \<times> string option) list" where
  "bindings s = map (\<lambda>k. (tid k, status k, client_id k)) (tasks s)"

declare free_name.simps [code]

declare free_name.simps [code]

section \<open>Enqueueing\<close>

lemma dropWhile_all: "(\<forall>c \<in> set s. P c) \<Longrightarrow> dropWhile P s = []"
  by (induction s) auto

lemma strip_blank: "(\<forall>c \<in> set s. py_isspace c) \<Longrightarrow> strip s = []"
  by (simp add: strip_def dropWhile_all)

lemma strip_empty_iff: "strip s = [] \<longleftrightarrow> (\<forall>c \<in> set s. py_isspace c)"
proof
  assume "strip s = []"
  then have "dropWhile py_isspace s = [] \<or> (\<forall>c \<in> set (rev (dropWhile py_isspace s)). py_isspace c)"
    by (auto simp: strip_def dropWhile_eq_Nil_conv)
  moreover have "dropWhile py_isspace s \<noteq> [] \<Longrightarrow> \<not> py_isspace (hd (dropWhile py_isspace s))"
    by (rule hd_dropWhile)
  ultimately have "dropWhile py_isspace s = []"
    by (cases "dropWhile py_isspace s") auto
  then show "\<forall>c \<in> set s. py_isspace c"
    by (simp add: dropWhile_eq_Nil_conv)
next
  assume "\<forall>c \<in> set s. py_isspace c"
  then show "strip s = []" by (rule strip_blank)
qed

text \<open>
  C7. \<^verbatim>\<open>add_task\<close> returns \<^verbatim>\<open>None\<close> and appends nothing when the prompt is empty
  or consists of whitespace only. Every other call appends exactly one task at the end of
  the task list; that task is the one returned, its status is waiting, and for the kind
  "Text to Video" its list of reference images is empty whatever list was passed.
\<close>

theorem add_task_spec:
  "((\<forall>c \<in> set p. py_isspace c) \<longrightarrow>
      add_task p ttype ratio res refs odir row stamp s = (None, s)) \<and>
   (\<not> (\<forall>c \<in> set p. py_isspace c) \<longrightarrow>
      (\<exists>t. add_task p ttype ratio res refs odir row stamp s = (Some t, s\<lparr>tasks := tasks s @ [t]\<rparr>) \<and>
           status t = Queued \<and>
           (ttype = ''Text to Video'' \<longrightarrow> reference_images t = [])))"
proof (cases "\<forall>c \<in> set p. py_isspace c")
  case True
  then have "strip p = []" by (rule strip_blank)
  with True show ?thesis by (simp add: add_task_def)
next
  case False
  then have "strip p \<noteq> []" by (simp add: strip_empty_iff)
  with False show ?thesis by (simp add: add_task_def Let_def)
qed

text \<open>The two calls of the theorem: a prompt of two blanks, and a prompt with text for the
  kind "Text to Video" with one reference image.\<close>

theorem add_task_spec_witness:
  "add_task ''  '' ''Text to Video'' ''16:9'' ''720p'' (Some [''img'']) None None ''120000000000'' init_state
     = (None, init_state) \<and>
   (\<exists>t. add_task ''a cat'' ''Text to Video'' ''16:9'' ''720p'' (Some [''img'']) None None
           ''120000000000'' init_state = (Some t, init_state\<lparr>tasks := tasks init_state @ [t]\<rparr>) \<and>
        status t = Queued \<and> reference_images t = [])"
  using add_task_spec [of "''  ''" "''Text to Video''" "''16:9''" "''720p''" "Some [''img'']" None None
      "''120000000000''" init_state]
    add_task_spec [of "''a cat''" "''Text to Video''" "''16:9''" "''720p''" "Some [''img'']" None None
      "''120000000000''" init_state]
  by (simp add: py_isspace_def)

section \<open>Retry\<close>

text \<open>
  C4. \<^verbatim>\<open>retry_task\<close> succeeds exactly when the index is in range and the task there
  is failed, timed out or download-failed. When it does not succeed the state is the one
  before. When it succeeds the task at the index is waiting again with empty detail, no
  start time, no end time and no client, every other task is as before, the cursor is
  moved back to the index when it was beyond it, and the registry is untouched.
\<close>

theorem retry_task_spec:
  "(fst (retry_task i r s) = Inr () \<longleftrightarrow>
      0 \<le> i \<and> i < int (length (tasks s)) \<and>
      status (tasks s ! nat i) \<in> {Failed, TimedOut, SaveFailed}) \<and>
   (fst (retry_task i r s) \<noteq> Inr () \<longrightarrow> snd (retry_task i r s) = s) \<and>
   (fst (retry_task i r s) = Inr () \<longrightarrow>
      tasks (snd (retry_task i r s)) =
        (tasks s)[nat i := (tasks s ! nat i)\<lparr>status := Queued, status_detail := Text [],
           start_time := None, end_time := None, client_id := None\<rparr>] \<and>
      current_index (snd (retry_task i r s)) =
        (if current_index s > nat i then nat i else current_index s) \<and>
      clients (snd (retry_task i r s)) = clients s \<and>
      chunk_buffer (snd (retry_task i r s)) = chunk_buffer s)"
  by (auto simp: retry_task_def Let_def failed_status_def reset_task_def start_execution_def)


text \<open>A failed task at position 0 with the cursor at 1 is retried; position 1 is out of
  range.\<close>

theorem retry_task_spec_witness:
  "fst (retry_task 0 False failed_example) = Inr () \<and>
   tasks (snd (retry_task 0 False failed_example)) = [example_task] \<and>
   current_index (snd (retry_task 0 False failed_example)) = 0 \<and>
   fst (retry_task 1 False failed_example) \<noteq> Inr () \<and>
   snd (retry_task 1 False failed_example) = failed_example"
  using retry_task_spec [of 0 False failed_example] retry_task_spec [of 1 False failed_example]
  by (simp add: failed_example_def init_state_def example_task_def)

section \<open>The timeout sweep\<close>

lemma timeout_loop_tasks:
  "fst (timeout_loop now ts cs) = map (\<lambda>t. if expired now t then time_out now t else t) ts"
  by (induction ts arbitrary: cs) (simp_all add: case_prod_beta)

lemma map_entry_absent: "map_of cs k = None \<Longrightarrow> AList.map_entry k f cs = cs"
  by (induction cs) (auto split: if_splits)

lemma expired_iff:
  "expired n t \<longleftrightarrow> status t = Assigned \<and> (\<exists>st. start_time t = Some st \<and> n - st > 600 * 1000000)"
  by (auto simp: expired_def seconds_def TASK_TIMEOUT_SECONDS_def split: option.splits)

lemma time_out_eq:
  "time_out n t = t\<lparr>status := TimedOut, end_time := Some n, status_detail := TimeoutDetail 10\<rparr>"
  by (simp add: time_out_def TASK_TIMEOUT_SECONDS_def)

lemma sweep_tasks:
  "tasks (snd (check_timeout_tasks now s)) =
     map (\<lambda>t. if expired now t then time_out now t else t) (tasks s)"
  using timeout_loop_tasks [of now "tasks s" "clients s"]
  by (simp add: check_timeout_tasks_def case_prod_beta)

lemma map_of_release:
  "map_of (release c cs) cid =
     map_option (\<lambda>i. if c = Some cid \<and> cid \<noteq> [] then i\<lparr>busy := False, task_id := None\<rparr> else i)
       (map_of cs cid)"
  by (cases "map_of cs cid") (auto simp: release_def map_of_map_entry split: option.splits)

lemma timeout_loop_clients:
  "map_of (fst (snd (timeout_loop now ts cs))) cid =
     map_option (\<lambda>i. if cid \<noteq> [] \<and> (\<exists>t \<in> set ts. expired now t \<and> client_id t = Some cid)
                      then i\<lparr>busy := False, task_id := None\<rparr> else i)
       (map_of cs cid)"
proof (induction ts arbitrary: cs)
  case Nil
  show ?case by (simp add: option.map_ident)
next
  case (Cons t ts)
  show ?case
  proof (cases "expired now t")
    case True
    then have "map_of (fst (snd (timeout_loop now (t # ts) cs))) cid =
        map_of (fst (snd (timeout_loop now ts (release (client_id t) cs)))) cid"
      by (simp split: prod.splits)
    also have "\<dots> = map_option (\<lambda>i. if cid \<noteq> [] \<and> (\<exists>t \<in> set ts. expired now t \<and> client_id t = Some cid)
                      then i\<lparr>busy := False, task_id := None\<rparr> else i)
       (map_of (release (client_id t) cs) cid)"
      by (rule Cons.IH)
    finally show ?thesis using True
      by (cases "map_of cs cid") (auto simp: map_of_release)
  next
    case False
    then have "map_of (fst (snd (timeout_loop now (t # ts) cs))) cid =
        map_of (fst (snd (timeout_loop now ts cs))) cid"
      by (simp split: prod.splits)
    with False show ?thesis
      by (cases "map_of cs cid") (auto simp: Cons.IH)
  qed
qed

lemma sweep_clients:
  "map_of (clients (snd (check_timeout_tasks now s))) cid =
     map_option (\<lambda>i. if cid \<noteq> [] \<and> (\<exists>t \<in> set (tasks s). expired now t \<and> client_id t = Some cid)
                      then i\<lparr>busy := False, task_id := None\<rparr> else i)
       (map_of (clients s) cid)"
  using timeout_loop_clients [of now "tasks s" "clients s" cid]
  by (simp add: check_timeout_tasks_def case_prod_beta)

text \<open>
  C5. One run of \<^verbatim>\<open>check_timeout_tasks\<close> keeps the number and order of the tasks.
  A task that is processing and whose start time lies more than 600 seconds back becomes
  timed out, with the time of the sweep as its end time and the timeout text as its
  detail; the registered client that its \<^verbatim>\<open>client_id\<close> names is afterwards not busy
  and has no task id; and a sweep at any later time leaves the task as this sweep made
  it. A task that is not processing is left as it is by every sweep.
\<close>

theorem check_timeout_tasks_spec:
  "length (tasks (snd (check_timeout_tasks now s))) = length (tasks s) \<and>
   (\<forall>j < length (tasks s). \<forall>st.
      status (tasks s ! j) = Assigned \<and> start_time (tasks s ! j) = Some st \<and>
      now - st > 600 * 1000000 \<longrightarrow>
      tasks (snd (check_timeout_tasks now s)) ! j =
        (tasks s ! j)\<lparr>status := TimedOut, end_time := Some now, status_detail := TimeoutDetail 10\<rparr> \<and>
      (\<forall>cid info. client_id (tasks s ! j) = Some cid \<and> cid \<noteq> [] \<and>
          map_of (clients s) cid = Some info \<longrightarrow>
          map_of (clients (snd (check_timeout_tasks now s))) cid =
            Some (info\<lparr>busy := False, task_id := None\<rparr>)) \<and>
      (\<forall>later. tasks (snd (check_timeout_tasks later (snd (check_timeout_tasks now s)))) ! j =
          tasks (snd (check_timeout_tasks now s)) ! j)) \<and>
   (\<forall>j < length (tasks s). status (tasks s ! j) \<noteq> Assigned \<longrightarrow>
      tasks (snd (check_timeout_tasks now s)) ! j = tasks s ! j)"
proof (intro conjI allI impI)
  show "length (tasks (snd (check_timeout_tasks now s))) = length (tasks s)"
    by (simp add: sweep_tasks)
next
  fix j st
  assume j: "j < length (tasks s)"
    and a: "status (tasks s ! j) = Assigned \<and> start_time (tasks s ! j) = Some st \<and>
      now - st > 600 * 1000000"
  then have e: "expired now (tasks s ! j)" by (simp add: expired_iff)
  with j show t: "tasks (snd (check_timeout_tasks now s)) ! j =
        (tasks s ! j)\<lparr>status := TimedOut, end_time := Some now, status_detail := TimeoutDetail 10\<rparr>"
    by (simp add: sweep_tasks time_out_eq)
  {
    fix later
    from j t have "\<not> expired later (tasks (snd (check_timeout_tasks now s)) ! j)"
      by (simp add: expired_iff)
    moreover from j have "j < length (tasks (snd (check_timeout_tasks now s)))"
      by (simp add: sweep_tasks)
    ultimately show "tasks (snd (check_timeout_tasks later (snd (check_timeout_tasks now s)))) ! j =
          tasks (snd (check_timeout_tasks now s)) ! j"
      by (simp add: sweep_tasks [of later "snd (check_timeout_tasks now s)"])
  }
  fix cid info
  assume c: "client_id (tasks s ! j) = Some cid \<and> cid \<noteq> [] \<and> map_of (clients s) cid = Some info"
  from j have "tasks s ! j \<in> set (tasks s)" by simp
  with e c have "\<exists>t \<in> set (tasks s). expired now t \<and> client_id t = Some cid" by blast
  with c show "map_of (clients (snd (check_timeout_tasks now s))) cid =
            Some (info\<lparr>busy := False, task_id := None\<rparr>)"
    by (simp add: sweep_clients)
next
  fix j
  assume "j < length (tasks s)" and "status (tasks s ! j) \<noteq> Assigned"
  then show "tasks (snd (check_timeout_tasks now s)) ! j = tasks s ! j"
    by (simp add: sweep_tasks expired_iff)
qed


text \<open>A task started at time 0 and swept 601 seconds later, and swept again later on.\<close>

theorem check_timeout_tasks_spec_witness:
  "status (tasks busy_example ! 0) = Assigned \<and>
   start_time (tasks busy_example ! 0) = Some 0 \<and>
   client_id (tasks busy_example ! 0) = Some ''c0_100'' \<and>
   map_of (clients busy_example) ''c0_100'' =
     Some (example_client\<lparr>busy := True, task_id := Some ''task_0_120000000000''\<rparr>) \<and>
   status (tasks (snd (check_timeout_tasks 601000000 busy_example)) ! 0) = TimedOut \<and>
   end_time (tasks (snd (check_timeout_tasks 601000000 busy_example)) ! 0) = Some 601000000 \<and>
   map_of (clients (snd (check_timeout_tasks 601000000 busy_example))) ''c0_100'' =
     Some example_client \<and>
   tasks (snd (check_timeout_tasks 999000000 (snd (check_timeout_tasks 601000000 busy_example)))) ! 0 =
     tasks (snd (check_timeout_tasks 601000000 busy_example)) ! 0"
proof -
  have len: "0 < length (tasks busy_example)"
    by (simp add: busy_example_def)
  have t: "status (tasks busy_example ! 0) = Assigned \<and>
      start_time (tasks busy_example ! 0) = Some 0 \<and> 600 * 1000000 < (601000000::int) - 0"
    by (simp add: busy_example_def)
  have c: "client_id (tasks busy_example ! 0) = Some ''c0_100'' \<and> ''c0_100'' \<noteq> [] \<and>
      map_of (clients busy_example) ''c0_100'' =
        Some (example_client\<lparr>busy := True, task_id := Some ''task_0_120000000000''\<rparr>)"
    by (simp add: busy_example_def)
  note sweep = check_timeout_tasks_spec [of 601000000 busy_example, THEN conjunct2, THEN conjunct1,
      rule_format, OF len t]
  from sweep have 1: "tasks (snd (check_timeout_tasks 601000000 busy_example)) ! 0 =
      (tasks busy_example ! 0)\<lparr>status := TimedOut, end_time := Some 601000000,
        status_detail := TimeoutDetail 10\<rparr>"
    by (rule conjunct1)
  from sweep [THEN conjunct2, THEN conjunct1, rule_format, OF c]
  have 2: "map_of (clients (snd (check_timeout_tasks 601000000 busy_example))) ''c0_100'' =
      Some example_client"
    by (simp add: example_client_def)
  from sweep [THEN conjunct2, THEN conjunct2, rule_format, of 999000000]
  have 3: "tasks (snd (check_timeout_tasks 999000000 (snd (check_timeout_tasks 601000000 busy_example)))) ! 0 =
      tasks (snd (check_timeout_tasks 601000000 busy_example)) ! 0" .
  from 1 have 4: "status (tasks (snd (check_timeout_tasks 601000000 busy_example)) ! 0) = TimedOut"
    and 5: "end_time (tasks (snd (check_timeout_tasks 601000000 busy_example)) ! 0) = Some 601000000"
    by simp_all
  from t c 2 3 4 5 show ?thesis by blast
qed

section \<open>Worker messages\<close>

text \<open>
  C9. A \<^verbatim>\<open>result\<close> message whose error is missing or empty, on the connection of
  client \<open>cid\<close> (the id \<^verbatim>\<open>register_client\<close> returned, never empty), changes nothing
  but the entry of \<open>cid\<close> in the registry: the tasks, the cursor and every other client
  are as before, and the entry of \<open>cid\<close>, when it is registered, is not busy, has no
  task id and has the time of the message as the end of its last task.
\<close>

theorem result_without_error:
  assumes "err = None \<or> err = Some []" and "cid \<noteq> []"
  shows "ws_message e now stamp cid (Result t err) s =
           Some (Open, [], s\<lparr>clients := AList.map_entry cid
             (\<lambda>i. i\<lparr>busy := False, task_id := None, last_task_end := Some now\<rparr>) (clients s)\<rparr>) \<and>
         (\<forall>info. map_of (clients s) cid = Some info \<longrightarrow>
            map_of (AList.map_entry cid
              (\<lambda>i. i\<lparr>busy := False, task_id := None, last_task_end := Some now\<rparr>) (clients s)) cid =
            Some (info\<lparr>busy := False, task_id := None, last_task_end := Some now\<rparr>)) \<and>
         (\<forall>c. c \<noteq> cid \<longrightarrow>
            map_of (AList.map_entry cid
              (\<lambda>i. i\<lparr>busy := False, task_id := None, last_task_end := Some now\<rparr>) (clients s)) c =
            map_of (clients s) c)"
proof -
  have "\<not> truthy err" using assms(1) by (auto simp: truthy_def)
  then show ?thesis using assms(2)
    by (auto simp: ws_message_def handle_result_def mark_client_idle_def map_entry_absent
        map_of_map_entry)
qed


text \<open>The busy client of the sample state sends a result without error.\<close>

theorem result_without_error_witness:
  "ws_message example_env 5 ''2026-01-01_00-00-00'' ''c0_100''
     (Result (Some ''task_0_120000000000'') None) busy_example =
   Some (Open, [], busy_example\<lparr>clients :=
     [(''c0_100'', example_client\<lparr>last_task_end := Some 5\<rparr>)]\<rparr>)"
  using result_without_error [of None "''c0_100''" example_env 5 "''2026-01-01_00-00-00''"
      "Some ''task_0_120000000000''" busy_example]
  by (simp add: busy_example_def init_state_def example_client_def)

lemma first_index_None: "first_index p xs = None \<longleftrightarrow> (\<forall>x \<in> set xs. \<not> p x)"
  by (induction xs) auto

text \<open>
  C10. A complete payload for a task id that no task has, sent whole
  (\<^verbatim>\<open>image_data\<close>) or put together by the last \<^verbatim>\<open>image_chunk\<close>, changes no
  task and makes no directory and writes no file; the only change besides the chunk
  buffer is that the entry of the sending client is not busy, has no task id and has the
  time of the message as the end of its last task.
\<close>

theorem unknown_task_payload:
  assumes "\<forall>k \<in> set (tasks s). tid k \<noteq> t" and "t \<noteq> []"
  shows "ws_message e now stamp cid (ImageData (Some t) d) s =
           Some (Open, [], s\<lparr>clients := AList.map_entry cid
             (\<lambda>i. i\<lparr>busy := False, task_id := None, last_task_end := Some now\<rparr>) (clients s)\<rparr>) \<and>
         (image_chunk t chunk_index total_chunks d (chunk_buffer s) = (Complete full, cb) \<longrightarrow>
          ws_message e now stamp cid (ImageChunk (Some t) chunk_index total_chunks d) s =
            Some (Open, [], s\<lparr>chunk_buffer := cb, clients := AList.map_entry cid
              (\<lambda>i. i\<lparr>busy := False, task_id := None, last_task_end := Some now\<rparr>) (clients s)\<rparr>))"
proof -
  have none: "first_index (\<lambda>k. tid k = t) (tasks s) = None"
    using assms(1) by (simp add: first_index_None)
  have h: "handle_image_result e now stamp cid t x s1 =
      Some ([], s1\<lparr>clients := AList.map_entry cid
             (\<lambda>i. i\<lparr>busy := False, task_id := None, last_task_end := Some now\<rparr>) (clients s1)\<rparr>)"
    if "tasks s1 = tasks s" for x s1
    using none that
    by (auto simp: handle_image_result_def mark_client_idle_def map_entry_absent)
  show ?thesis using assms(2)
    by (simp add: ws_message_def truthy_def h)
qed


text \<open>The busy client of the sample state sends a payload for a task id nobody has.\<close>

theorem unknown_task_payload_witness:
  "ws_message example_env 5 ''2026-01-01_00-00-00'' ''c0_100''
     (ImageData (Some ''task_9'') ''aGVsbG8='') busy_example =
   Some (Open, [], busy_example\<lparr>clients :=
     [(''c0_100'', example_client\<lparr>last_task_end := Some 5\<rparr>)]\<rparr>)"
  using unknown_task_payload [of busy_example "''task_9''" example_env 5 "''2026-01-01_00-00-00''"
      "''c0_100''" "''aGVsbG8=''" 0 0 "[]" "[]"]
  by (simp add: busy_example_def init_state_def example_client_def example_task_def)

section \<open>The dispatch loop\<close>

lemma get_next_task_frame:
  "snd (get_next_task s) = s\<lparr>current_index := current_index (snd (get_next_task s))\<rparr>"
proof (induction s rule: get_next_task.induct)
  case (1 s)
  show ?case
  proof (cases "current_index s < length (tasks s) \<and> status (tasks s ! current_index s) \<noteq> Queued")
    case True
    then have eq: "get_next_task s = get_next_task (s\<lparr>current_index := current_index s + 1\<rparr>)"
      by (subst get_next_task.simps) simp
    from True "1.IH" have "snd (get_next_task (s\<lparr>current_index := current_index s + 1\<rparr>)) =
        (s\<lparr>current_index := current_index s + 1\<rparr>)\<lparr>current_index :=
          current_index (snd (get_next_task (s\<lparr>current_index := current_index s + 1\<rparr>)))\<rparr>"
      by simp
    then show ?thesis by (simp add: eq)
  next
    case False
    then show ?thesis by (subst (1 2) get_next_task.simps) auto
  qed
qed

lemma get_next_task_Some:
  "get_next_task s = (Some i, s') \<Longrightarrow>
     i < length (tasks s) \<and> status (tasks s ! i) = Queued \<and> s' = s\<lparr>current_index := i\<rparr>"
proof (induction s rule: get_next_task.induct)
  case (1 s)
  show ?case
  proof (cases "current_index s < length (tasks s) \<and> status (tasks s ! current_index s) \<noteq> Queued")
    case True
    then have eq: "get_next_task s = get_next_task (s\<lparr>current_index := current_index s + 1\<rparr>)"
      by (subst get_next_task.simps) simp
    with "1.prems" True "1.IH" show ?thesis by simp
  next
    case False
    with "1.prems" show ?thesis by (subst (asm) get_next_task.simps) (auto split: if_splits)
  qed
qed

lemma get_next_task_cong:
  "map (\<lambda>t. status t = Queued) (tasks s2) = map (\<lambda>t. status t = Queued) (tasks s1) \<Longrightarrow>
   current_index s2 = current_index s1 \<Longrightarrow>
   fst (get_next_task s2) = fst (get_next_task s1)"
proof (induction s1 arbitrary: s2 rule: get_next_task.induct)
  case (1 s)
  from "1.prems"(1) have len: "length (tasks s2) = length (tasks s)"
    by (rule map_eq_imp_length_eq)
  show ?case
  proof (cases "current_index s < length (tasks s)")
    case False
    with len "1.prems"(2) show ?thesis
      by (simp add: get_next_task.simps [of s] get_next_task.simps [of s2])
  next
    case True
    with "1.prems"(1) len have q: "(status (tasks s2 ! current_index s) = Queued) =
        (status (tasks s ! current_index s) = Queued)"
      by (metis (mono_tags, lifting) nth_map)
    show ?thesis
    proof (cases "status (tasks s ! current_index s) = Queued")
      case Q: True
      with True q len "1.prems"(2) show ?thesis
        by (simp add: get_next_task.simps [of s] get_next_task.simps [of s2])
    next
      case NQ: False
      have "fst (get_next_task (s2\<lparr>current_index := current_index s2 + 1\<rparr>)) =
            fst (get_next_task (s\<lparr>current_index := current_index s + 1\<rparr>))"
        using True NQ "1.prems" by (intro "1.IH") simp_all
      with True NQ q len "1.prems"(2) show ?thesis
        by (simp add: get_next_task.simps [of s] get_next_task.simps [of s2])
    qed
  qed
qed

lemma find_SomeD: "find P xs = Some x \<Longrightarrow> x \<in> set xs \<and> P x"
  by (induction xs) (auto split: if_splits)

lemma get_idle_client_Some:
  "get_idle_client now s = Some (cid, info) \<Longrightarrow> map_of (clients s) cid \<noteq> None"
proof -
  assume "get_idle_client now s = Some (cid, info)"
  then have "(cid, info) \<in> set (clients s)"
    by (auto simp: get_idle_client_def dest: find_SomeD)
  then have "\<exists>x. map_of (clients s) cid = Some x" by (rule weak_map_of_SomeI)
  then show ?thesis by simp
qed

lemma freed_refl: "list_all2 freed cs cs"
  by (simp add: list_all2_refl freed_def)

lemma freed_trans: "list_all2 freed xs ys \<Longrightarrow> list_all2 freed ys zs \<Longrightarrow> list_all2 freed xs zs"
proof (rule list_all2_trans)
  show "freed a b \<Longrightarrow> freed b c \<Longrightarrow> freed a c" for a b c
    by (auto simp: freed_def)
qed

lemma freed_map_entry:
  "list_all2 freed cs (AList.map_entry k (\<lambda>i. i\<lparr>busy := False, task_id := None\<rparr>) cs)"
  by (induction cs) (auto simp: freed_def list_all2_refl)

lemma freed_release: "list_all2 freed cs (release c cs)"
  by (auto simp: release_def freed_refl freed_map_entry split: option.splits)

lemma freed_timeout_loop: "list_all2 freed cs (fst (snd (timeout_loop now ts cs)))"
proof (induction ts arbitrary: cs)
  case Nil
  show ?case by (simp add: freed_refl)
next
  case (Cons t ts)
  show ?case
  proof (cases "expired now t")
    case True
    have "list_all2 freed cs (release (client_id t) cs)" by (rule freed_release)
    moreover have "list_all2 freed (release (client_id t) cs)
        (fst (snd (timeout_loop now ts (release (client_id t) cs))))" by (rule Cons.IH)
    ultimately have "list_all2 freed cs (fst (snd (timeout_loop now ts (release (client_id t) cs))))"
      by (rule freed_trans)
    with True show ?thesis by (simp add: case_prod_beta)
  next
    case False
    with Cons.IH [of cs] show ?thesis by (simp add: case_prod_beta)
  qed
qed

lemma freed_sweep: "list_all2 freed (clients s) (clients (snd (check_timeout_tasks now s)))"
  using freed_timeout_loop [of "clients s" now "tasks s"]
  by (simp add: check_timeout_tasks_def case_prod_beta)

lemma freed_busy_mem:
  "list_all2 freed cs cs' \<Longrightarrow> y \<in> set cs' \<Longrightarrow> busy (snd y) \<Longrightarrow> y \<in> set cs"
proof (induction rule: list_all2_induct)
  case Nil
  then show ?case by simp
next
  case (Cons x xs z zs)
  then show ?case
    by (cases x; cases z) (auto simp: freed_def)
qed

lemma sweep_queued:
  "map (\<lambda>t. status t = Queued) (tasks (snd (check_timeout_tasks now s))) =
   map (\<lambda>t. status t = Queued) (tasks s)"
  by (auto simp: sweep_tasks expired_def time_out_def)

lemma sweep_frame:
  "current_index (snd (check_timeout_tasks now s)) = current_index s \<and>
   is_running (snd (check_timeout_tasks now s)) = is_running s \<and>
   next_page_number (snd (check_timeout_tasks now s)) = next_page_number s \<and>
   chunk_buffer (snd (check_timeout_tasks now s)) = chunk_buffer s"
  by (simp add: check_timeout_tasks_def case_prod_beta)

text \<open>
  C6. In a pass of the dispatch loop in which the cursor scan returns the task at
  position \<open>i\<close> and, after the sweep of the pass, some client is idle and off cooldown
  (the loop looks at the file only then: without a connected idle client it waits and
  looks again in a later pass), if
  the task carries a row number \<open>r\<close> and the file \<open>r\<close> followed by the task's
  extension exists under the task's resolved directory, then the pass sends nothing (its
  outcome is \<open>Skipped\<close>), the task becomes done with that file as saved path, the time
  of the pass as end time and the skip text as detail, the cursor stands behind the task,
  and the registry is the one the sweep at the start of the pass left: every client that
  is busy afterwards was busy, with the same entry, before.
\<close>

theorem skip_if_exists:
  assumes nxt: "fst (get_next_task s0) = Some i"
    and idle: "get_idle_client now (snd (check_timeout_tasks now s0)) \<noteq> None"
    and row: "import_row_number (tasks s0 ! i) = Some r" "r \<noteq> []"
    and fex: "path_exists e (joinpath e (resolve_dir e (tasks s0 ! i)) (r @ file_ext (tasks s0 ! i)))"
  shows "\<exists>s'. execute_iteration e now send_ok s0 = (Skipped, s') \<and>
      i < length (tasks s') \<and>
      tasks s' ! i = (tasks s0 ! i)
        \<lparr>status := Succeeded,
         end_time := Some now,
         saved_path := Some (absolute e (joinpath e (resolve_dir e (tasks s0 ! i)) (r @ file_ext (tasks s0 ! i)))),
         output_dir_path := Some (resolve_dir e (tasks s0 ! i)),
         status_detail := SkipDetail,
         preview_base64 :=
           (if file_ext (tasks s0 ! i) = ''.png'' \<or> file_ext (tasks s0 ! i) = ''.jpg''
            then thumbnail e (joinpath e (resolve_dir e (tasks s0 ! i)) (r @ file_ext (tasks s0 ! i)))
            else preview_base64 (tasks s0 ! i))\<rparr> \<and>
      current_index s' = i + 1 \<and>
      clients s' = clients (snd (check_timeout_tasks now s0)) \<and>
      (\<forall>c \<in> set (clients s'). busy (snd c) \<longrightarrow> c \<in> set (clients s0))"
proof -
  define s1 where "s1 = snd (check_timeout_tasks now s0)"
  define fp where "fp = joinpath e (resolve_dir e (tasks s0 ! i)) (r @ file_ext (tasks s0 ! i))"
  obtain s0' where g0: "get_next_task s0 = (Some i, s0')"
    using nxt by (cases "get_next_task s0") simp
  then have i0: "i < length (tasks s0)" and q0: "status (tasks s0 ! i) = Queued"
    by (auto dest: get_next_task_Some)
  have "fst (get_next_task s1) = fst (get_next_task s0)"
    unfolding s1_def by (rule get_next_task_cong) (simp_all add: sweep_queued sweep_frame)
  with nxt obtain s where g1: "get_next_task s1 = (Some i, s)"
    by (cases "get_next_task s1") simp
  then have s: "s = s1\<lparr>current_index := i\<rparr>" by (auto dest: get_next_task_Some)
  from q0 have ne: "\<not> expired now (tasks s0 ! i)" by (simp add: expired_def)
  with i0 have ti: "tasks s ! i = tasks s0 ! i"
    by (simp add: s s1_def sweep_tasks)
  from i0 have len: "i < length (tasks s)" by (simp add: s s1_def sweep_tasks)
  have fr: "list_all2 freed (clients s0) (clients s)"
    using freed_sweep [of s0 now] by (simp add: s s1_def)
  from idle have "get_idle_client now s \<noteq> None"
    by (simp add: get_idle_client_def s s1_def)
  then obtain cid info where ic: "get_idle_client now s = Some (cid, info)" by auto
  then have "clients s \<noteq> []" by (auto simp: get_idle_client_def)
  then have cnt: "fst (get_client_count s) \<noteq> 0" by (simp add: get_client_count_def)
  have sp: "skip_path e (tasks s0 ! i) = Some fp"
    using row fex by (simp add: skip_path_def fp_def)
  have ex: "execute_iteration e now send_ok s0 =
      (Skipped, s\<lparr>tasks := (tasks s)[i := skip_task e now fp (tasks s0 ! i)],
                  current_index := current_index s + 1\<rparr>)"
    using g1 cnt ic sp ti
    by (simp add: execute_iteration_def s1_def [symmetric] Let_def)
  have busy: "\<forall>c \<in> set (clients s). busy (snd c) \<longrightarrow> c \<in> set (clients s0)"
    using freed_busy_mem [OF fr] by blast
  show ?thesis
    unfolding ex using len busy
    by (simp add: skip_task_def fp_def s s1_def)
qed

text \<open>Row number 7, extension \<^verbatim>\<open>.png\<close>, and the file \<^verbatim>\<open>output/7.png\<close> exists.\<close>

theorem skip_if_exists_witness:
  "fst (get_next_task import_example) = Some 0 \<and>
   get_idle_client 0 (snd (check_timeout_tasks 0 import_example)) \<noteq> None \<and>
   import_row_number (tasks import_example ! 0) = Some ''7'' \<and>
   path_exists example_env ''output/7.png'' \<and>
   fst (execute_iteration example_env 0 True import_example) = Skipped \<and>
   status (tasks (snd (execute_iteration example_env 0 True import_example)) ! 0) = Succeeded \<and>
   saved_path (tasks (snd (execute_iteration example_env 0 True import_example)) ! 0) =
     Some ''/srv/output/7.png'' \<and>
   current_index (snd (execute_iteration example_env 0 True import_example)) = 1"
proof -
  have h1: "fst (get_next_task import_example) = Some 0"
    by (simp add: get_next_task.simps import_example_def init_state_def example_task_def)
  have h2: "get_idle_client 0 (snd (check_timeout_tasks 0 import_example)) \<noteq> None"
    by (simp add: get_idle_client_def check_timeout_tasks_def import_example_def init_state_def
        example_task_def expired_def example_client_def cooling_def)
  have h3: "import_row_number (tasks import_example ! 0) = Some ''7''" and h4: "''7'' \<noteq> []"
    by (simp_all add: import_example_def)
  have rd: "resolve_dir example_env (tasks import_example ! 0) = ''output''"
    by (simp add: resolve_dir_def import_example_def example_task_def example_env_def)
  have fe: "file_ext (tasks import_example ! 0) = ''.png''"
    by (simp add: import_example_def example_task_def)
  have h5: "path_exists example_env (joinpath example_env
      (resolve_dir example_env (tasks import_example ! 0)) (''7'' @ file_ext (tasks import_example ! 0)))"
    unfolding rd fe by (simp add: example_env_def)
  have h6: "path_exists example_env ''output/7.png''"
    by (simp add: example_env_def)
  from skip_if_exists [OF h1 h2 h3 h4 h5, of True]
  obtain s' where ex: "execute_iteration example_env 0 True import_example = (Skipped, s')"
    and st: "status (tasks s' ! 0) = Succeeded"
    and sp: "saved_path (tasks s' ! 0) = Some (absolute example_env (joinpath example_env
      (resolve_dir example_env (tasks import_example ! 0)) (''7'' @ file_ext (tasks import_example ! 0))))"
    and ci: "current_index s' = 1"
    by auto
  from sp have sp': "saved_path (tasks s' ! 0) = Some ''/srv/output/7.png''"
    unfolding rd fe by (simp add: example_env_def)
  from h1 h2 h3 h6 ex st sp' ci show ?thesis by simp
qed

lemma length_update_first [simp]: "length (update_first p f xs) = length xs"
  by (induction xs) auto

lemma update_first_nth:
  "j < length xs \<Longrightarrow> update_first p f xs ! j = xs ! j \<or> update_first p f xs ! j = f (xs ! j)"
proof (induction xs arbitrary: j)
  case Nil
  then show ?case by simp
next
  case (Cons x xs)
  then show ?case by (cases j) auto
qed

lemma mark_busy_task:
  "j < length (tasks s) \<Longrightarrow>
   tid (tasks (mark_client_busy cid t s) ! j) = tid (tasks s ! j) \<and>
   status (tasks (mark_client_busy cid t s) ! j) = status (tasks s ! j)"
  using update_first_nth [of j "tasks s" "\<lambda>k. tid k = t" "\<lambda>k. k\<lparr>client_id := Some cid\<rparr>"]
  by (auto simp: mark_client_busy_def)

lemma mark_busy_length [simp]: "length (tasks (mark_client_busy cid t s)) = length (tasks s)"
  by (simp add: mark_client_busy_def)

lemma busy_then_idle:
  assumes "map_of (clients s) cid \<noteq> None" and "clients s2 = clients (mark_client_busy cid t s)"
  shows "\<exists>info. map_of (clients (mark_client_idle cid now s2)) cid = Some info \<and>
           \<not> busy info \<and> task_id info = None \<and> last_task_end info = Some now"
proof -
  from assms(1) obtain i0 where i0: "map_of (clients s) cid = Some i0" by auto
  then have "map_of (clients s2) cid = Some (i0\<lparr>busy := True, task_id := Some t\<rparr>)"
    by (simp add: assms(2) mark_client_busy_def map_of_map_entry)
  then show ?thesis
    by (simp add: mark_client_idle_def map_of_map_entry)
qed

text \<open>
  C8. A pass of the dispatch loop whose send raises (outcome \<open>SendFailed\<close>) leaves the
  task it tried to send, which is the one just before the cursor, waiting, and the chosen
  client registered, not busy, with no task id and with the time of the pass as the end
  of its last task. The same holds for the immediate dispatch of
  \<^verbatim>\<open>chat_completions\<close> (outcome \<open>ChatSendFailed\<close>), where the task is the last of
  the list. Waiting is none of the failure statuses.
\<close>

theorem send_failure_requeues:
  "(execute_iteration e now send_ok s0 = (SendFailed cid msg, s1) \<longrightarrow>
      0 < current_index s1 \<and> current_index s1 - 1 < length (tasks s1) \<and>
      tid (tasks s1 ! (current_index s1 - 1)) = m_task_id msg \<and>
      status (tasks s1 ! (current_index s1 - 1)) = Queued \<and>
      (\<exists>info. map_of (clients s1) cid = Some info \<and> \<not> busy info \<and> task_id info = None \<and>
         last_task_end info = Some now)) \<and>
   (chat_completions p ttype ratio res images stamp now send_ok api s0 =
        (ChatSendFailed t cid msg, s2) \<longrightarrow>
      tasks s2 \<noteq> [] \<and> tid (last (tasks s2)) = t \<and> m_task_id msg = t \<and>
      status (last (tasks s2)) = Queued \<and>
      (\<exists>info. map_of (clients s2) cid = Some info \<and> \<not> busy info \<and> task_id info = None \<and>
         last_task_end info = Some now))"
proof (rule conjI, goal_cases)
  case 1
  show ?case
  proof (rule impI)
  assume A: "execute_iteration e now send_ok s0 = (SendFailed cid msg, s1)"
  obtain r s where g: "get_next_task (snd (check_timeout_tasks now s0)) = (r, s)"
    by (cases "get_next_task (snd (check_timeout_tasks now s0))")
  from A g obtain i info where r: "r = Some i"
    and ic: "get_idle_client now s = Some (cid, info)"
    and m: "msg = task_message_of e (tasks s ! i)"
    and s1: "s1 = mark_client_idle cid now
       ((mark_client_busy cid (tid (tasks s ! i))
           (s\<lparr>tasks := (tasks s)[i := (tasks s ! i)\<lparr>status := Assigned, start_time := Some now\<rparr>]\<rparr>))
        \<lparr>current_index := current_index s + 1,
         tasks := (tasks (mark_client_busy cid (tid (tasks s ! i))
           (s\<lparr>tasks := (tasks s)[i := (tasks s ! i)\<lparr>status := Assigned, start_time := Some now\<rparr>]\<rparr>)))
           [i := (tasks (mark_client_busy cid (tid (tasks s ! i))
           (s\<lparr>tasks := (tasks s)[i := (tasks s ! i)\<lparr>status := Assigned, start_time := Some now\<rparr>]\<rparr>)) ! i)
             \<lparr>status := Queued\<rparr>]\<rparr>)"
    by (auto simp: execute_iteration_def Let_def mark_client_busy_def
        split: option.splits if_splits)
  from g r have i: "i < length (tasks s)" and ci: "current_index s = i"
    by (auto dest: get_next_task_Some)
  define sa where "sa = s\<lparr>tasks := (tasks s)[i := (tasks s ! i)\<lparr>status := Assigned, start_time := Some now\<rparr>]\<rparr>"
  define sb where "sb = mark_client_busy cid (tid (tasks s ! i)) sa"
  have s1': "s1 = mark_client_idle cid now
      (sb\<lparr>current_index := current_index s + 1, tasks := (tasks sb)[i := (tasks sb ! i)\<lparr>status := Queued\<rparr>]\<rparr>)"
    unfolding s1 sb_def sa_def ..
  have reg: "map_of (clients sa) cid \<noteq> None"
    using get_idle_client_Some [OF ic] by (simp add: sa_def)
  have ia: "i < length (tasks sa)" using i by (simp add: sa_def)
  have tb: "tid (tasks sb ! i) = tid (tasks s ! i)"
    using mark_busy_task [OF ia, of cid "tid (tasks s ! i)"] i by (simp add: sb_def sa_def)
  have ts1: "tasks s1 = (tasks sb)[i := (tasks sb ! i)\<lparr>status := Queued\<rparr>]"
    and c1: "current_index s1 = i + 1"
    by (simp_all add: s1' mark_client_idle_def ci)
  have ib: "i < length (tasks sb)" using ia by (simp add: sb_def)
  have cl: "\<exists>info. map_of (clients s1) cid = Some info \<and> \<not> busy info \<and> task_id info = None \<and>
         last_task_end info = Some now"
    unfolding s1' by (rule busy_then_idle [OF reg]) (simp add: sb_def)
  show "0 < current_index s1 \<and> current_index s1 - 1 < length (tasks s1) \<and>
      tid (tasks s1 ! (current_index s1 - 1)) = m_task_id msg \<and>
      status (tasks s1 ! (current_index s1 - 1)) = Queued \<and>
      (\<exists>info. map_of (clients s1) cid = Some info \<and> \<not> busy info \<and> task_id info = None \<and>
         last_task_end info = Some now)"
    using cl ib tb by (simp add: c1 ts1 m task_message_of_def)
  qed
next
  case 2
  show ?case
  proof (rule impI)
  assume A: "chat_completions p ttype ratio res images stamp now send_ok api s0 =
        (ChatSendFailed t cid msg, s2)"
  obtain r s where g: "add_task p ttype ratio res (Some images) None None stamp s0 = (r, s)"
    by (cases "add_task p ttype ratio res (Some images) None None stamp s0")
  define i where "i = length (tasks s) - 1"
  define sa where "sa = s\<lparr>tasks := (tasks s)[i := (tasks s ! i)\<lparr>status := Assigned, start_time := Some now\<rparr>]\<rparr>"
  define sb where "sb = mark_client_busy cid t sa"
  define sc where "sc = mark_client_idle cid now (sb\<lparr>tasks := (tasks sb)[i := (tasks sb ! i)\<lparr>status := Queued\<rparr>]\<rparr>)"
  from A g obtain k info where r: "r = Some k" and tk: "tid k = t" and mt: "m_task_id msg = t"
    and ic: "get_idle_client now s = Some (cid, info)"
    and s2: "tasks s2 = tasks sc \<and> clients s2 = clients sc"
    by (auto simp: chat_completions_def Let_def start_execution_def i_def sa_def sb_def sc_def
        split: option.splits if_splits prod.splits)
  from g r have ts: "tasks s = tasks s0 @ [k]"
    by (auto simp: add_task_def Let_def split: if_splits)
  then have i: "i < length (tasks s)" and il: "i = length (tasks s0)" and ti: "tasks s ! i = k"
    by (simp_all add: i_def)
  have reg: "map_of (clients sa) cid \<noteq> None"
    using get_idle_client_Some [OF ic] by (simp add: sa_def)
  have ia: "i < length (tasks sa)" using i by (simp add: sa_def)
  have tb: "tid (tasks sb ! i) = t"
    using mark_busy_task [OF ia, of cid t] i ti tk by (simp add: sb_def sa_def)
  have ib: "i < length (tasks sb)" and lb: "length (tasks sb) = Suc i"
    using ia ts by (simp_all add: sb_def sa_def i_def)
  have tsc: "tasks sc = (tasks sb)[i := (tasks sb ! i)\<lparr>status := Queued\<rparr>]"
    by (simp add: sc_def mark_client_idle_def)
  have ne: "tasks sc \<noteq> []" using ib by (auto simp: tsc)
  have la: "last (tasks sc) = (tasks sb ! i)\<lparr>status := Queued\<rparr>"
  proof -
    from lb have "tasks sb \<noteq> []" by auto
    with lb show ?thesis by (simp add: tsc last_list_update)
  qed
  have cl: "\<exists>info. map_of (clients sc) cid = Some info \<and> \<not> busy info \<and> task_id info = None \<and>
         last_task_end info = Some now"
    unfolding sc_def by (rule busy_then_idle [OF reg]) (simp add: sb_def)
  show "tasks s2 \<noteq> [] \<and> tid (last (tasks s2)) = t \<and> m_task_id msg = t \<and>
      status (last (tasks s2)) = Queued \<and>
      (\<exists>info. map_of (clients s2) cid = Some info \<and> \<not> busy info \<and> task_id info = None \<and>
         last_task_end info = Some now)"
    using s2 ne la tb cl mt by simp
  qed
qed

text \<open>One waiting task and one idle client, and a send that raises, on both paths.\<close>

lemma loop_fails:
  "fst (execute_iteration example_env 0 False queued_example) =
     SendFailed ''c0_100'' (task_message_of example_env example_task)"
  by (simp add: execute_iteration_def check_timeout_tasks_def queued_example_def init_state_def
      expired_def example_task_def get_next_task.simps get_client_count_def get_idle_client_def
      example_client_def cooling_def skip_path_def Let_def)

lemma chat_fails:
  "fst (chat_completions ''a cat'' ''Create Image'' ''16:9'' ''4K'' [] ''120000000000'' 0 False None
      (init_state\<lparr>clients := [(''c0_100'', example_client)]\<rparr>)) =
     ChatSendFailed ''task_0_120000000000'' ''c0_100''
       \<lparr>m_task_id = ''task_0_120000000000'', m_prompt = ''a cat'', m_task_type = ''Create Image'',
        m_aspect_ratio = ''16:9'', m_resolution = ''4K'', m_reference_images = []\<rparr>"
  by (simp add: chat_completions_def get_client_count_def add_task_def strip_def py_isspace_def
      init_state_def Let_def dec.simps digit_def get_idle_client_def example_client_def cooling_def)

theorem send_failure_requeues_witness:
  "fst (execute_iteration example_env 0 False queued_example) =
     SendFailed ''c0_100'' (task_message_of example_env example_task) \<and>
   status (tasks (snd (execute_iteration example_env 0 False queued_example)) !
     (current_index (snd (execute_iteration example_env 0 False queued_example)) - 1)) = Queued \<and>
   fst (chat_completions ''a cat'' ''Create Image'' ''16:9'' ''4K'' [] ''120000000000'' 0 False None
      (init_state\<lparr>clients := [(''c0_100'', example_client)]\<rparr>)) =
     ChatSendFailed ''task_0_120000000000'' ''c0_100''
       \<lparr>m_task_id = ''task_0_120000000000'', m_prompt = ''a cat'', m_task_type = ''Create Image'',
        m_aspect_ratio = ''16:9'', m_resolution = ''4K'', m_reference_images = []\<rparr> \<and>
   status (last (tasks (snd (chat_completions ''a cat'' ''Create Image'' ''16:9'' ''4K'' []
      ''120000000000'' 0 False None (init_state\<lparr>clients := [(''c0_100'', example_client)]\<rparr>))))) = Queued"
proof -
  have 1: "execute_iteration example_env 0 False queued_example =
      (SendFailed ''c0_100'' (task_message_of example_env example_task),
       snd (execute_iteration example_env 0 False queued_example))"
    using loop_fails by (simp add: prod_eq_iff)
  have 2: "chat_completions ''a cat'' ''Create Image'' ''16:9'' ''4K'' [] ''120000000000'' 0 False None
      (init_state\<lparr>clients := [(''c0_100'', example_client)]\<rparr>) =
     (ChatSendFailed ''task_0_120000000000'' ''c0_100''
       \<lparr>m_task_id = ''task_0_120000000000'', m_prompt = ''a cat'', m_task_type = ''Create Image'',
        m_aspect_ratio = ''16:9'', m_resolution = ''4K'', m_reference_images = []\<rparr>,
      snd (chat_completions ''a cat'' ''Create Image'' ''16:9'' ''4K'' [] ''120000000000'' 0 False None
      (init_state\<lparr>clients := [(''c0_100'', example_client)]\<rparr>)))"
    using chat_fails by (simp add: prod_eq_iff)
  note L = send_failure_requeues [where e = example_env and now = 0 and send_ok = False
      and ?s0.0 = queued_example and cid = "''c0_100''"
      and msg = "task_message_of example_env example_task"
      and ?s1.0 = "snd (execute_iteration example_env 0 False queued_example)",
      THEN conjunct1, rule_format, OF 1]
  note C = send_failure_requeues [where now = 0 and send_ok = False
      and ?s0.0 = "init_state\<lparr>clients := [(''c0_100'', example_client)]\<rparr>"
      and cid = "''c0_100''" and p = "''a cat''" and ttype = "''Create Image''"
      and ratio = "''16:9''" and res = "''4K''" and images = "[]" and stamp = "''120000000000''"
      and api = None and t = "''task_0_120000000000''"
      and msg = "\<lparr>m_task_id = ''task_0_120000000000'', m_prompt = ''a cat'',
        m_task_type = ''Create Image'', m_aspect_ratio = ''16:9'', m_resolution = ''4K'',
        m_reference_images = []\<rparr>"
      and ?s2.0 = "snd (chat_completions ''a cat'' ''Create Image'' ''16:9'' ''4K'' []
        ''120000000000'' 0 False None (init_state\<lparr>clients := [(''c0_100'', example_client)]\<rparr>))",
      THEN conjunct2, rule_format, OF 2]
  from L C loop_fails chat_fails
  show ?thesis by blast
qed

section \<open>Chunk reassembly\<close>

lemma entry_of_update [simp]: "entry_of (AList.update t e cb) t = e"
  by (simp add: entry_of_def update_conv')

lemma length_update_new: "k \<notin> fst ` set al \<Longrightarrow> length (AList.update k v al) = Suc (length al)"
  by (induction al) auto

lemma those_map_Some: "(\<forall>x \<in> set xs. f x = Some (g x)) \<Longrightarrow> those (map f xs) = Some (map g xs)"
  by (induction xs) auto

lemma delete_update_absent: "map_of cb t = None \<Longrightarrow> AList.delete t (AList.update t e cb) = cb"
proof -
  assume "map_of cb t = None"
  then have "t \<notin> fst ` set cb" by (simp add: map_of_eq_None_iff)
  then show ?thesis by (simp add: delete_update_same)
qed

lemma stored_Nil [simp]: "stored payload [] e = e"
  by (simp add: stored_def)

lemma stored_Cons [simp]: "stored payload (i # is) e = stored payload is (AList.update (int i) (payload i) e)"
  by (simp add: stored_def)

lemma stored_keys: "fst ` set (stored payload is e) = int ` set is \<union> fst ` set e"
  by (induction "is" arbitrary: e) (auto simp: dom_update)

lemma stored_length:
  "distinct is \<Longrightarrow> int ` set is \<inter> fst ` set e = {} \<Longrightarrow>
   length (stored payload is e) = length e + length is"
proof (induction "is" arbitrary: e)
  case Nil
  then show ?case by simp
next
  case (Cons i "is")
  from Cons.prems have new: "int i \<notin> fst ` set e" by auto
  from Cons.prems have "int ` set is \<inter> fst ` set (AList.update (int i) (payload i) e) = {}"
    by (auto simp: dom_update)
  with Cons.prems have "length (stored payload is (AList.update (int i) (payload i) e)) =
      length (AList.update (int i) (payload i) e) + length is"
    by (intro Cons.IH) simp_all
  with new show ?case by (simp add: length_update_new)
qed

lemma stored_lookup:
  "i \<in> set is \<Longrightarrow> map_of (stored payload is e) (int i) = Some (payload i)"
proof (induction "is" arbitrary: e)
  case Nil
  then show ?case by simp
next
  case (Cons j "is")
  show ?case
  proof (cases "i \<in> set is")
    case True
    then show ?thesis by (simp add: Cons.IH)
  next
    case False
    with Cons.prems have ij: "i = j" by simp
    have "map_of (stored payload is e') (int k) = map_of e' (int k)" if "k \<notin> set is" for e' k
      using that by (induction "is" arbitrary: e') (auto simp: update_conv')
    with False show ?thesis by (simp add: ij update_conv')
  qed
qed

text \<open>Chunks that do not complete the set are buffered.\<close>

lemma deliver_buffered:
  "distinct is \<Longrightarrow> int ` set is \<inter> fst ` set (entry_of cb t) = {} \<Longrightarrow>
   length (entry_of cb t) + length is < n \<Longrightarrow> is \<noteq> [] \<Longrightarrow>
   deliver t n payload is cb =
     (replicate (length is) Buffered, AList.update t (stored payload is (entry_of cb t)) cb)"
proof (induction "is" arbitrary: cb)
  case Nil
  then show ?case by simp
next
  case (Cons i "is")
  define e1 where "e1 = AList.update (int i) (payload i) (entry_of cb t)"
  define cb1 where "cb1 = AList.update t e1 cb"
  from Cons.prems have new: "int i \<notin> fst ` set (entry_of cb t)" by auto
  then have len1: "length e1 = Suc (length (entry_of cb t))"
    by (simp add: e1_def length_update_new)
  with Cons.prems have "int (length e1) \<noteq> int n" by simp
  then have step: "image_chunk t (int i) (int n) (payload i) cb = (Buffered, cb1)"
    by (simp add: image_chunk_def Let_def e1_def cb1_def entry_of_def)
  show ?case
  proof (cases "is = []")
    case True
    with step show ?thesis by (simp add: cb1_def e1_def)
  next
    case False
    have e: "entry_of cb1 t = e1" by (simp add: cb1_def)
    from Cons.prems have "int ` set is \<inter> fst ` set e1 = {}"
      by (auto simp: e1_def dom_update)
    with Cons.prems False len1 have "deliver t n payload is cb1 =
        (replicate (length is) Buffered, AList.update t (stored payload is (entry_of cb1 t)) cb1)"
      by (intro Cons.IH) (simp_all add: e)
    with step show ?thesis by (simp add: e cb1_def e1_def)
  qed
qed

lemma deliver_append:
  "deliver t n payload (xs @ ys) cb =
     (case deliver t n payload xs cb of
        (rs, cb1) \<Rightarrow> (case deliver t n payload ys cb1 of (rs2, cb2) \<Rightarrow> (rs @ rs2, cb2)))"
  by (induction xs arbitrary: cb) (auto split: prod.splits)

text \<open>
  C3. For every task id, every number \<open>n > 0\<close> of chunks and every payload for the
  indices \<open>0, \<dots>, n - 1\<close>: when nothing is buffered for the task at the start of the
  transfer, the \<open>n\<close> chunk messages, in any order (a list without repetition of all
  the indices), are buffered one after the other until the \<open>n\<close>-th completes the set;
  that message yields the payloads joined in the order of the indices, and the task's
  entry is gone from the buffer afterwards. The outcome is therefore the one of the
  delivery in the order of the indices.
\<close>

theorem chunk_reassembly:
  assumes n: "0 < n" and d: "distinct order" and s: "set order = {0..<n}"
    and fresh: "map_of cb t = None"
  shows "deliver t n payload order cb =
           (replicate (n - 1) Buffered @ [Complete (concat (map payload [0..<n]))], cb) \<and>
         deliver t n payload order cb = deliver t n payload [0..<n] cb"
proof -
  have main: "deliver t n payload xs cb =
           (replicate (n - 1) Buffered @ [Complete (concat (map payload [0..<n]))], cb)"
    if dx: "distinct xs" and sx: "set xs = {0..<n}" for xs
  proof -
    from dx sx have lx: "length xs = n"
      using distinct_card [of xs] by simp
    with n have ne: "xs \<noteq> []" by auto
    define pre l where "pre = butlast xs" and "l = last xs"
    from ne have xs: "xs = pre @ [l]" by (simp add: pre_def l_def)
    from dx have "distinct (pre @ [l])" by (simp add: xs [symmetric])
    then have dp: "distinct pre" and lp: "l \<notin> set pre" by simp_all
    from lx xs have lenp: "length pre = n - 1" by simp
    have e0: "entry_of cb t = []" using fresh by (simp add: entry_of_def)
    define e where "e = stored payload pre []"
    define cb1 where "cb1 = (if pre = [] then cb else AList.update t e cb)"
    have pre: "deliver t n payload pre cb = (replicate (n - 1) Buffered, cb1)"
    proof (cases "pre = []")
      case True
      with lenp show ?thesis by (simp add: cb1_def)
    next
      case False
      from n lenp have "length (entry_of cb t) + length pre < n" by (simp add: e0)
      with dp False have "deliver t n payload pre cb =
          (replicate (length pre) Buffered, AList.update t (stored payload pre (entry_of cb t)) cb)"
        by (intro deliver_buffered) (simp_all add: e0)
      with False lenp show ?thesis by (simp add: cb1_def e_def e0)
    qed
    have e1: "entry_of cb1 t = e"
      by (auto simp: cb1_def e0 e_def)
    define e2 where "e2 = AList.update (int l) (payload l) e"
    have keys: "fst ` set e = int ` set pre" by (simp add: e_def stored_keys)
    with lp have "int l \<notin> fst ` set e" by auto
    then have "length e2 = Suc (length e)" by (simp add: e2_def length_update_new)
    moreover have "length e = length pre"
      using stored_length [OF dp, of "[]" payload] by (simp add: e_def)
    ultimately have "length e2 = Suc (n - 1)" using lenp by simp
    with n have len2: "int (length e2) = int n" by simp
    have look: "map_of e2 (int i) = Some (payload i)" if "i < n" for i
    proof (cases "i = l")
      case True
      then show ?thesis by (simp add: e2_def update_conv')
    next
      case False
      from that sx have "i \<in> set xs" by simp
      then have "i \<in> set (pre @ [l])" by (simp add: xs [symmetric])
      with False have "i \<in> set pre" by simp
      with False show ?thesis by (simp add: e2_def update_conv' e_def stored_lookup)
    qed
    then have th: "those (map (\<lambda>i. map_of e2 (int i)) [0..<n]) = Some (map payload [0..<n])"
      by (intro those_map_Some) simp
    have del: "AList.delete t (AList.update t e2 cb1) = cb"
      using fresh by (auto simp: cb1_def delete_update_absent)
    have lst: "image_chunk t (int l) (int n) (payload l) cb1 =
        (Complete (concat (map payload [0..<n])), cb)"
    proof -
      have "(case map_of cb1 t of None \<Rightarrow> [] | Some b \<Rightarrow> b) = e"
        using e1 by (simp add: entry_of_def)
      then have "image_chunk t (int l) (int n) (payload l) cb1 =
          (if int n > 0 \<and> int (length e2) = int n
           then (case those (map (\<lambda>i. map_of e2 (int i)) [0..<nat (int n)]) of
                 None \<Rightarrow> (KeyError, AList.update t e2 cb1)
               | Some parts \<Rightarrow> (Complete (concat parts), AList.delete t (AList.update t e2 cb1)))
           else (Buffered, AList.update t e2 cb1))"
        unfolding e2_def by (simp add: image_chunk_def Let_def)
      with n len2 th del show ?thesis by simp
    qed
    have "deliver t n payload (pre @ [l]) cb =
           (replicate (n - 1) Buffered @ [Complete (concat (map payload [0..<n]))], cb)"
      by (simp add: deliver_append pre lst)
    then show ?thesis by (simp add: xs [symmetric])
  qed
  have "distinct [0..<n]" and "set [0..<n] = {0..<n}" by simp_all
  then have "deliver t n payload [0..<n] cb =
           (replicate (n - 1) Buffered @ [Complete (concat (map payload [0..<n]))], cb)"
    by (rule main)
  with main [OF d s] show ?thesis by simp
qed

text \<open>Three chunks sent in the order 2, 0, 1.\<close>

theorem chunk_reassembly_witness:
  "distinct [2, 0, 1 :: nat] \<and> set [2, 0, 1] = {0..<3 :: nat} \<and>
   deliver ''task_0_120000000000'' 3 example_payload [2, 0, 1] [] =
     ([Buffered, Buffered, Complete ''aabbcc''], []) \<and>
   deliver ''task_0_120000000000'' 3 example_payload [2, 0, 1] [] =
     deliver ''task_0_120000000000'' 3 example_payload [0, 1, 2] []"
proof -
  have h1: "0 < (3::nat)" and h2: "distinct [2, 0, 1 :: nat]" and h4: "map_of ([] :: (string \<times> (int \<times> string) list) list) ''task_0_120000000000'' = None"
    by simp_all
  have h3: "set [2, 0, 1] = {0..<3 :: nat}" by auto
  have u: "[0..<3] = [0, 1, 2 :: nat]" by (simp add: upt_rec)
  have r: "replicate (3 - 1) Buffered = [Buffered, Buffered]" by (simp add: numeral_2_eq_2)
  have c: "concat (map example_payload [0, 1, 2]) = ''aabbcc''" by (simp add: example_payload_def)
  have "deliver ''task_0_120000000000'' 3 example_payload [2, 0, 1] [] =
      (replicate (3 - 1) Buffered @ [Complete (concat (map example_payload [0..<3]))], []) \<and>
    deliver ''task_0_120000000000'' 3 example_payload [2, 0, 1] [] =
      deliver ''task_0_120000000000'' 3 example_payload [0..<3] []"
    by (rule chunk_reassembly [OF h1 h2 h3 h4])
  then have "deliver ''task_0_120000000000'' 3 example_payload [2, 0, 1] [] =
      ([Buffered, Buffered, Complete ''aabbcc''], []) \<and>
    deliver ''task_0_120000000000'' 3 example_payload [2, 0, 1] [] =
      deliver ''task_0_120000000000'' 3 example_payload [0, 1, 2] []"
    unfolding u r c append_Cons append_Nil .
  with h2 h3 show ?thesis by blast
qed

section \<open>The registry invariant\<close>

lemma quiet_refl: "quiet cs cs"
  by (simp add: quiet_def)

lemma quiet_trans: "quiet xs ys \<Longrightarrow> quiet ys zs \<Longrightarrow> quiet xs zs"
  by (auto simp: quiet_def intro: order_trans)

lemma quiet_filter: "quiet cs (filter Q cs)"
proof -
  have "length (filter (holds t) (filter Q cs)) \<le> length (filter (holds t) cs)" for t
    by (induction cs) auto
  then show ?thesis by (auto simp: quiet_def list_all_iff)
qed

lemma quiet_delete: "quiet cs (AList.delete k cs)"
  by (simp add: AList.delete_eq quiet_filter)

lemma quiet_update:
  assumes "task_id v = None" and "\<not> busy v"
  shows "quiet cs (AList.update k v cs)"
proof -
  have 1: "length (filter (holds t) (AList.update k v cs)) \<le> length (filter (holds t) cs)" for t
    using assms(1) by (induction cs) (auto simp: holds_def)
  have 2: "list_all consistent cs \<Longrightarrow> list_all consistent (AList.update k v cs)"
    using assms by (induction cs) (auto simp: consistent_def)
  from 1 2 show ?thesis by (simp add: quiet_def)
qed

lemma quiet_map_entry:
  assumes "\<And>i. task_id (f i) = None \<and> \<not> busy (f i)"
  shows "quiet cs (AList.map_entry k f cs)"
proof -
  have 1: "length (filter (holds t) (AList.map_entry k f cs)) \<le> length (filter (holds t) cs)" for t
    using assms by (induction cs) (auto simp: holds_def)
  have 2: "list_all consistent cs \<Longrightarrow> list_all consistent (AList.map_entry k f cs)"
    using assms by (induction cs) (auto simp: consistent_def)
  from 1 2 show ?thesis by (simp add: quiet_def)
qed

lemma quiet_freed: "list_all2 freed cs cs' \<Longrightarrow> quiet cs cs'"
proof -
  assume a: "list_all2 freed cs cs'"
  have 1: "length (filter (holds t) cs') \<le> length (filter (holds t) cs)" for t
    using a by (induction rule: list_all2_induct) (auto simp: freed_def holds_def)
  have 2: "list_all consistent cs \<Longrightarrow> list_all consistent cs'"
    using a by (induction rule: list_all2_induct) (auto simp: freed_def consistent_def)
  from 1 2 show ?thesis by (simp add: quiet_def)
qed

lemma bind_holders:
  "length (filter (holds t') (AList.map_entry k (\<lambda>i. i\<lparr>busy := True, task_id := Some t\<rparr>) cs)) \<le>
     length (filter (holds t') cs) + (if t' = t then 1 else 0)"
  by (induction cs) (auto simp: holds_def)

lemma bind_consistent:
  "list_all consistent cs \<Longrightarrow>
   list_all consistent (AList.map_entry k (\<lambda>i. i\<lparr>busy := True, task_id := Some t\<rparr>) cs)"
  by (induction cs) (auto simp: consistent_def)

lemma clients_mark_busy:
  "clients (mark_client_busy cid t s) =
     AList.map_entry cid (\<lambda>i. i\<lparr>busy := True, task_id := Some t\<rparr>) (clients s)"
  by (simp add: mark_client_busy_def map_entry_absent)

lemma clients_mark_idle:
  "clients (mark_client_idle cid now s) =
     AList.map_entry cid (\<lambda>i. i\<lparr>busy := False, task_id := None, last_task_end := Some now\<rparr>) (clients s)"
  by (simp add: mark_client_idle_def map_entry_absent)

lemma quiet_mark_idle: "quiet (clients s) (clients (mark_client_idle cid now s))"
  unfolding clients_mark_idle by (rule quiet_map_entry) simp

lemma quiet_register: "quiet (clients s) (clients (snd (register_client w u n s)))"
proof -
  have "quiet (clients s) (filter (\<lambda>(cid, info). url info \<noteq> u) (clients s))"
    by (rule quiet_filter)
  moreover have "quiet (filter (\<lambda>(cid, info). url info \<noteq> u) (clients s))
     (AList.update k \<lparr>ws = w, url = u, busy = False, task_id = None,
        page_number = next_page_number s, last_task_end = None\<rparr>
        (filter (\<lambda>(cid, info). url info \<noteq> u) (clients s)))" for k
    by (rule quiet_update) simp_all
  ultimately show ?thesis
    by (auto simp: register_client_def Let_def intro: quiet_trans)
qed

lemma quiet_remove: "quiet (clients s) (clients (remove_client cid s))"
  by (auto simp: remove_client_def quiet_refl quiet_delete split: option.splits)

lemma quiet_sweep: "quiet (clients s) (clients (snd (check_timeout_tasks now s)))"
  by (rule quiet_freed) (rule freed_sweep)

lemma quiet_image_result:
  "handle_image_result e now stamp cid t d s = Some (fx, s') \<Longrightarrow> quiet (clients s) (clients s')"
  using quiet_mark_idle [of s cid now]
  by (auto simp: handle_image_result_def Let_def clients_mark_idle split: option.splits if_splits)

lemma quiet_result: "quiet (clients s) (clients (handle_result now cid t err s))"
  using quiet_mark_idle [of s cid now]
  by (auto simp: handle_result_def Let_def clients_mark_idle quiet_refl)

lemma quiet_status: "quiet (clients s) (clients (handle_status cid m s))"
  by (auto simp: handle_status_def update_task_status_detail_def quiet_refl split: option.splits)

lemma quiet_ws_message:
  "ws_message e now stamp cid msg s = Some (c, fx, s') \<Longrightarrow> quiet (clients s) (clients s')"
proof (cases msg)
  case (ImageChunk t i n d)
  assume a: "ws_message e now stamp cid msg s = Some (c, fx, s')"
  show ?thesis
  proof (cases "truthy t")
    case False
    with a ImageChunk show ?thesis by (simp add: ws_message_def quiet_refl)
  next
    case True
    obtain r cb where ic: "image_chunk (the t) i n d (chunk_buffer s) = (r, cb)"
      by (cases "image_chunk (the t) i n d (chunk_buffer s)")
    show ?thesis
    proof (cases r)
      case Buffered
      with a ImageChunk True ic show ?thesis by (auto simp: ws_message_def quiet_refl)
    next
      case KeyError
      with a ImageChunk True ic quiet_remove [of "s\<lparr>chunk_buffer := cb\<rparr>" cid]
      show ?thesis by (auto simp: ws_message_def)
    next
      case (Complete full)
      with a ImageChunk True ic obtain fx1 where
        "handle_image_result e now stamp cid (the t) full (s\<lparr>chunk_buffer := cb\<rparr>) = Some (fx1, s')"
        by (auto simp: ws_message_def)
      then have "quiet (clients (s\<lparr>chunk_buffer := cb\<rparr>)) (clients s')" by (rule quiet_image_result)
      then show ?thesis by simp
    qed
  qed
next
  case (ImageData t d)
  assume a: "ws_message e now stamp cid msg s = Some (c, fx, s')"
  with ImageData show ?thesis
    by (auto simp: ws_message_def quiet_refl split: if_splits dest: quiet_image_result)
next
  case (Result t err)
  assume "ws_message e now stamp cid msg s = Some (c, fx, s')"
  with Result show ?thesis by (auto simp: ws_message_def quiet_result)
next
  case (Status m)
  assume "ws_message e now stamp cid msg s = Some (c, fx, s')"
  with Status show ?thesis by (auto simp: ws_message_def quiet_status)
next
  case Other
  assume "ws_message e now stamp cid msg s = Some (c, fx, s')"
  with Other show ?thesis by (auto simp: ws_message_def quiet_refl)
qed

lemma map_entry_twice:
  "AList.map_entry k f (AList.map_entry k g cs) = AList.map_entry k (\<lambda>i. f (g i)) cs"
  by (induction cs) auto

lemma quiet_busy_idle:
  "quiet cs (AList.map_entry k (\<lambda>i. i\<lparr>busy := False, task_id := None, last_task_end := Some now\<rparr>)
     (AList.map_entry k (\<lambda>i. i\<lparr>busy := True, task_id := Some t\<rparr>) cs))"
  unfolding map_entry_twice by (rule quiet_map_entry) simp

lemma clients_get_next_task: "clients (snd (get_next_task s)) = clients s"
  by (subst get_next_task_frame) simp

lemma iteration_clients:
  assumes "execute_iteration e now ok s0 = (out, s')"
  shows "(case out of
            Sent cid msg \<Rightarrow>
              clients s' = AList.map_entry cid (\<lambda>i. i\<lparr>busy := True, task_id := Some (m_task_id msg)\<rparr>)
                (clients (snd (check_timeout_tasks now s0)))
          | SendFailed cid msg \<Rightarrow>
              clients s' = AList.map_entry cid
                (\<lambda>i. i\<lparr>busy := False, task_id := None, last_task_end := Some now\<rparr>)
                (AList.map_entry cid (\<lambda>i. i\<lparr>busy := True, task_id := Some (m_task_id msg)\<rparr>)
                   (clients (snd (check_timeout_tasks now s0))))
          | _ \<Rightarrow> clients s' = clients (snd (check_timeout_tasks now s0)))"
proof -
  obtain r s where g: "get_next_task (snd (check_timeout_tasks now s0)) = (r, s)"
    by (cases "get_next_task (snd (check_timeout_tasks now s0))")
  have c: "clients s = clients (snd (check_timeout_tasks now s0))"
    using clients_get_next_task [of "snd (check_timeout_tasks now s0)"] g by simp
  show ?thesis
    using assms g c
    by (auto simp: execute_iteration_def Let_def clients_mark_busy clients_mark_idle
        task_message_of_def split: option.splits if_splits)
qed

lemma clients_add_task: "clients (snd (add_task p ttype ratio res refs odir row stamp s)) = clients s"
  by (simp add: add_task_def Let_def)

lemma clients_start_execution: "clients (start_execution r s) = clients s"
  by (simp add: start_execution_def)

lemma chat_clients:
  assumes "chat_completions p ttype ratio res images stamp now ok api s0 = (out, s')"
  shows "(case out of
            ChatSent t cid msg \<Rightarrow>
              clients s' = AList.map_entry cid (\<lambda>i. i\<lparr>busy := True, task_id := Some t\<rparr>) (clients s0)
          | ChatSendFailed t cid msg \<Rightarrow>
              clients s' = AList.map_entry cid
                (\<lambda>i. i\<lparr>busy := False, task_id := None, last_task_end := Some now\<rparr>)
                (AList.map_entry cid (\<lambda>i. i\<lparr>busy := True, task_id := Some t\<rparr>) (clients s0))
          | _ \<Rightarrow> clients s' = clients s0)"
proof -
  obtain r s where g: "add_task p ttype ratio res (Some images) None None stamp s0 = (r, s)"
    by (cases "add_task p ttype ratio res (Some images) None None stamp s0")
  have c: "clients s = clients s0"
    using clients_add_task [of p ttype ratio res "Some images" None None stamp s0] g by simp
  show ?thesis
    using assms g c
    by (auto simp: chat_completions_def Let_def clients_mark_busy clients_mark_idle
        clients_start_execution split: option.splits if_splits)
qed

lemma clients_retry_task: "clients (snd (retry_task i r s)) = clients s"
  by (simp add: retry_task_def Let_def clients_start_execution)

lemma clients_retry_all_failed: "clients (snd (retry_all_failed r s)) = clients s"
  by (simp add: retry_all_failed_def Let_def clients_start_execution)

lemma clients_run_single_task: "clients (snd (run_single_task i r s)) = clients s"
  by (simp add: run_single_task_def Let_def clients_start_execution)

lemma event_quiet:
  assumes "apply_event ev s = Some s'" and "bound_task ev s = None"
  shows "quiet (clients s) (clients s')"
proof (cases ev)
  case (Register w u n)
  with assms show ?thesis by (auto simp: quiet_register)
next
  case (Disconnect cid)
  with assms show ?thesis by (auto simp: quiet_remove)
next
  case (Message e now stamp cid msg)
  with assms show ?thesis by (auto dest: quiet_ws_message)
next
  case (LoopIteration e now ok)
  show ?thesis
  proof (cases "is_running s")
    case False
    with assms LoopIteration show ?thesis by (auto simp: execute_tasks_step_def quiet_refl)
  next
    case True
    obtain out s1 where x: "execute_iteration e now ok s = (out, s1)"
      by (cases "execute_iteration e now ok s")
    with assms LoopIteration True have s1: "s1 = s'" and nb: "\<forall>cid msg. out \<noteq> Sent cid msg"
      by (auto simp: execute_tasks_step_def)
    from iteration_clients [OF x] nb
    have "clients s1 = clients (snd (check_timeout_tasks now s)) \<or>
      (\<exists>cid t. clients s1 = AList.map_entry cid
                (\<lambda>i. i\<lparr>busy := False, task_id := None, last_task_end := Some now\<rparr>)
                (AList.map_entry cid (\<lambda>i. i\<lparr>busy := True, task_id := Some t\<rparr>)
                   (clients (snd (check_timeout_tasks now s)))))"
      by (cases out) auto
    then have "quiet (clients (snd (check_timeout_tasks now s))) (clients s1)"
      by (auto simp: quiet_refl quiet_busy_idle)
    with quiet_sweep [of s now] show ?thesis unfolding s1 by (rule quiet_trans)
  qed
next
  case (ChatCompletion p ttype ratio res images stamp now ok api)
  obtain out s1 where x: "chat_completions p ttype ratio res images stamp now ok api s = (out, s1)"
    by (cases "chat_completions p ttype ratio res images stamp now ok api s")
  with assms ChatCompletion have s1: "s1 = s'" and nb: "\<forall>t cid msg. out \<noteq> ChatSent t cid msg"
    by auto
  from chat_clients [OF x] nb
  have "clients s1 = clients s \<or>
      (\<exists>cid t. clients s1 = AList.map_entry cid
                (\<lambda>i. i\<lparr>busy := False, task_id := None, last_task_end := Some now\<rparr>)
                (AList.map_entry cid (\<lambda>i. i\<lparr>busy := True, task_id := Some t\<rparr>) (clients s)))"
    by (cases out) auto
  then show ?thesis unfolding s1 [symmetric] by (auto simp: quiet_refl quiet_busy_idle)
next
  case (AddTask p ttype ratio res refs odir row stamp)
  with assms show ?thesis by (auto simp: clients_add_task quiet_refl)
next
  case (RetryTask i r)
  with assms have "clients s' = clients s" using clients_retry_task [of i r s] by auto
  then show ?thesis by (simp add: quiet_refl)
next
  case (RetryAllFailed r)
  with assms have "clients s' = clients s" using clients_retry_all_failed [of r s] by auto
  then show ?thesis by (simp add: quiet_refl)
next
  case ClearTasks
  with assms show ?thesis by (auto simp: clear_tasks_def quiet_refl)
next
  case (RunSingleTask i r)
  with assms have "clients s' = clients s" using clients_run_single_task [of i r s] by auto
  then show ?thesis by (simp add: quiet_refl)
next
  case (StartExecution r)
  with assms show ?thesis by (auto simp: start_execution_def quiet_refl)
next
  case StopExecution
  with assms show ?thesis by (auto simp: stop_execution_def quiet_refl)
qed

lemma event_bound:
  assumes "apply_event ev s = Some s'" and "bound_task ev s = Some t"
  shows "\<exists>cid cs1. quiet (clients s) cs1 \<and>
           clients s' = AList.map_entry cid (\<lambda>i. i\<lparr>busy := True, task_id := Some t\<rparr>) cs1"
proof (cases ev)
  case (LoopIteration e now ok)
  with assms have run: "is_running s" by (auto split: if_splits)
  obtain out s1 where x: "execute_iteration e now ok s = (out, s1)"
    by (cases "execute_iteration e now ok s")
  with assms LoopIteration run obtain cid msg where s1: "s1 = s'" and o: "out = Sent cid msg"
    and t: "m_task_id msg = t"
    by (auto simp: execute_tasks_step_def split: outcome.splits)
  from iteration_clients [OF x] o t
  have "clients s1 = AList.map_entry cid (\<lambda>i. i\<lparr>busy := True, task_id := Some t\<rparr>)
                (clients (snd (check_timeout_tasks now s)))"
    by simp
  with quiet_sweep [of s now] show ?thesis unfolding s1 by blast
next
  case (ChatCompletion p ttype ratio res images stamp now ok api)
  obtain out s1 where x: "chat_completions p ttype ratio res images stamp now ok api s = (out, s1)"
    by (cases "chat_completions p ttype ratio res images stamp now ok api s")
  with assms ChatCompletion obtain cid msg where s1: "s1 = s'" and o: "out = ChatSent t cid msg"
    by (auto split: chat_outcome.splits)
  from chat_clients [OF x] o
  have "clients s1 = AList.map_entry cid (\<lambda>i. i\<lparr>busy := True, task_id := Some t\<rparr>) (clients s)"
    by simp
  with quiet_refl [of "clients s"] show ?thesis unfolding s1 by blast
qed (use assms in auto)

lemma single_holder_iff:
  "single_holder s \<longleftrightarrow> (\<forall>t. length (filter (holds t) (clients s)) \<le> 1)"
proof
  assume sh: "single_holder s"
  show "\<forall>t. length (filter (holds t) (clients s)) \<le> 1"
  proof
    fix t
    show "length (filter (holds t) (clients s)) \<le> 1"
    proof (cases "filter (holds t) (clients s)")
      case Nil
      then show ?thesis by simp
    next
      case (Cons x xs)
      then have "x \<in> set (filter (holds t) (clients s))" by simp
      then have "x \<in> set (clients s)" and "task_id (snd x) = Some t"
        by (simp_all add: holds_def)
      with sh have "length (holders t s) \<le> 1"
        by (auto simp: single_holder_def list_all_iff)
      then show ?thesis by (simp add: holders_def)
    qed
  qed
next
  assume "\<forall>t. length (filter (holds t) (clients s)) \<le> 1"
  then show "single_holder s"
    by (auto simp: single_holder_def list_all_iff holders_def split: option.splits)
qed

lemma event_consistent:
  assumes "apply_event ev s = Some s'" and "busy_iff_assigned s"
  shows "busy_iff_assigned s'"
proof (cases "bound_task ev s")
  case None
  with assms(1) have "quiet (clients s) (clients s')" by (rule event_quiet)
  with assms(2) show ?thesis by (simp add: quiet_def busy_iff_assigned_def)
next
  case (Some t)
  with assms(1) obtain cid cs1 where q: "quiet (clients s) cs1"
    and c: "clients s' = AList.map_entry cid (\<lambda>i. i\<lparr>busy := True, task_id := Some t\<rparr>) cs1"
    by (blast dest: event_bound)
  from q assms(2) have "list_all consistent cs1" by (simp add: quiet_def busy_iff_assigned_def)
  then show ?thesis unfolding busy_iff_assigned_def c by (rule bind_consistent)
qed

lemma run_consistent:
  "busy_iff_assigned s \<Longrightarrow> run evs s = Some s' \<Longrightarrow> busy_iff_assigned s'"
proof (induction evs arbitrary: s)
  case Nil
  then show ?case by simp
next
  case (Cons ev evs)
  from Cons.prems(2) obtain s1 where 1: "apply_event ev s = Some s1" and 2: "run evs s1 = Some s'"
    by (auto split: option.splits)
  from 1 Cons.prems(1) have "busy_iff_assigned s1" by (rule event_consistent)
  then show ?case using 2 by (rule Cons.IH)
qed

lemma event_single_holder:
  assumes sh: "single_holder s" and ev: "apply_event ev s = Some s'"
    and free: "\<forall>t. bound_task ev s = Some t \<longrightarrow> holders t s = []"
  shows "single_holder s'"
proof (cases "bound_task ev s")
  case None
  with ev have "quiet (clients s) (clients s')" by (rule event_quiet)
  with sh show ?thesis
    unfolding single_holder_iff quiet_def by (meson order_trans)
next
  case (Some t)
  with ev obtain cid cs1 where q: "quiet (clients s) cs1"
    and c: "clients s' = AList.map_entry cid (\<lambda>i. i\<lparr>busy := True, task_id := Some t\<rparr>) cs1"
    by (blast dest: event_bound)
  from free Some have "filter (holds t) (clients s) = []" by (simp add: holders_def)
  moreover from q have "length (filter (holds t) cs1) \<le> length (filter (holds t) (clients s))"
    by (simp add: quiet_def)
  ultimately have z: "length (filter (holds t) cs1) = 0" by simp
  have "length (filter (holds t') (clients s')) \<le> 1" for t'
  proof (cases "t' = t")
    case True
    with bind_holders [of t' cid t cs1] z show ?thesis by (simp add: c)
  next
    case False
    from q have "length (filter (holds t') cs1) \<le> length (filter (holds t') (clients s))"
      by (simp add: quiet_def)
    moreover from sh have "length (filter (holds t') (clients s)) \<le> 1"
      by (simp add: single_holder_iff)
    ultimately show ?thesis using bind_holders [of t' cid t cs1] False by (simp add: c)
  qed
  then show ?thesis by (simp add: single_holder_iff)
qed

lemma init_consistent: "busy_iff_assigned init_state"
  by (simp add: busy_iff_assigned_def init_state_def)

text \<open>
  C1, as amended. In every state that a run of events reaches from the initial state,
  each registered client is busy exactly when it holds a task id. Every event keeps the
  property that no task id is held by two clients, provided that the task id the event
  binds by a successful send, if any, is held by no client before the event; the code
  does not check this, and the run \<open>double_dispatch\<close> reaches a state in which two
  clients hold the same task id.
\<close>

theorem registry_invariant:
  "(run evs init_state = Some s \<longrightarrow> busy_iff_assigned s) \<and>
   (single_holder s1 \<and> apply_event ev s1 = Some s2 \<and>
      (\<forall>t. bound_task ev s1 = Some t \<longrightarrow> holders t s1 = []) \<longrightarrow>
    single_holder s2)"
  using run_consistent [OF init_consistent, of evs s] event_single_holder [of s1 ev s2] by blast

text \<open>The claim as stated fails: after the run \<open>double_dispatch\<close> both clients are busy
  with the same task id.\<close>

theorem registry_invariant_counterexample:
  "map_option assignments (run double_dispatch init_state) =
     Some [(''c0_100'', True, Some ''task_0_120000000000''),
           (''c1_100'', True, Some ''task_0_120000000000'')] \<and>
   map_option single_holder (run double_dispatch init_state) = Some False"
  by code_simp

text \<open>The amended statement at work: one registration from the initial state, and the loop
  pass that sends the waiting task of the sample state to its idle client.\<close>

lemma loop_sends:
  "fst (execute_iteration example_env 0 True queued_example) =
     Sent ''c0_100'' (task_message_of example_env example_task)"
  by (simp add: execute_iteration_def check_timeout_tasks_def queued_example_def init_state_def
      expired_def example_task_def get_next_task.simps get_client_count_def get_idle_client_def
      example_client_def cooling_def skip_path_def Let_def)

theorem registry_invariant_witness:
  "run [Register 1 ''https://labs/page1'' 100] init_state =
     Some (snd (register_client 1 ''https://labs/page1'' 100 init_state)) \<and>
   busy_iff_assigned (snd (register_client 1 ''https://labs/page1'' 100 init_state)) \<and>
   single_holder queued_example \<and>
   apply_event (LoopIteration example_env 0 True) queued_example =
     Some (snd (execute_iteration example_env 0 True queued_example)) \<and>
   bound_task (LoopIteration example_env 0 True) queued_example = Some ''task_0_120000000000'' \<and>
   holders ''task_0_120000000000'' queued_example = [] \<and>
   single_holder (snd (execute_iteration example_env 0 True queued_example))"
proof -
  have h1: "run [Register 1 ''https://labs/page1'' 100] init_state =
     Some (snd (register_client 1 ''https://labs/page1'' 100 init_state))"
    by simp
  have h2: "single_holder queued_example"
    by (simp add: single_holder_def queued_example_def example_client_def init_state_def)
  have h3: "apply_event (LoopIteration example_env 0 True) queued_example =
     Some (snd (execute_iteration example_env 0 True queued_example))"
    by (simp add: execute_tasks_step_def queued_example_def init_state_def)
  have run: "is_running queued_example"
    by (simp add: queued_example_def init_state_def)
  have h4: "bound_task (LoopIteration example_env 0 True) queued_example = Some ''task_0_120000000000''"
    by (simp add: run loop_sends task_message_of_def example_task_def)
  have h5: "holders ''task_0_120000000000'' queued_example = []"
    by (simp add: holders_def holds_def queued_example_def example_client_def init_state_def)
  from h4 h5 have h6: "\<forall>t. bound_task (LoopIteration example_env 0 True) queued_example = Some t \<longrightarrow>
      holders t queued_example = []"
    by simp
  note T = registry_invariant [of "[Register 1 ''https://labs/page1'' 100]"
      "snd (register_client 1 ''https://labs/page1'' 100 init_state)" queued_example
      "LoopIteration example_env 0 True" "snd (execute_iteration example_env 0 True queued_example)"]
  from T h1 have c1: "busy_iff_assigned (snd (register_client 1 ''https://labs/page1'' 100 init_state))"
    by blast
  from T h2 h3 h6 have c2: "single_holder (snd (execute_iteration example_env 0 True queued_example))"
    by blast
  from h1 c1 h2 h3 h4 h5 c2 show ?thesis by blast
qed

section \<open>Disconnect\<close>

lemma holders_delete:
  "map fst (filter (holds t) cs) = [cid] \<Longrightarrow> filter (holds t) (AList.delete cid cs) = []"
proof -
  assume a: "map fst (filter (holds t) cs) = [cid]"
  have "fst x = cid" if "x \<in> set cs" and "holds t x" for x
  proof -
    from that have "fst x \<in> set (map fst (filter (holds t) cs))" by simp
    with a show ?thesis by simp
  qed
  then have "\<forall>x \<in> set (AList.delete cid cs). \<not> holds t x"
    by (auto simp: AList.delete_eq)
  then show ?thesis by (simp add: filter_empty_conv)
qed

text \<open>
  C2, as amended. When a registered client that holds the task id \<open>t\<close> is removed,
  every task with that id that is processing becomes waiting and is otherwise unchanged
  (its \<^verbatim>\<open>client_id\<close> still names the removed client), every other task is unchanged, so
  the removal gives no task the status failed; the client is no longer registered and
  every other entry of the registry is as before; and when the removed client was the
  only holder of \<open>t\<close>, no registered client holds \<open>t\<close> afterwards.
\<close>

theorem disconnect_requeues:
  assumes "map_of (clients s) cid = Some info" and "task_id info = Some t" and "t \<noteq> []"
  shows "tasks (remove_client cid s) =
           map (\<lambda>k. if tid k = t \<and> status k = Assigned then k\<lparr>status := Queued\<rparr> else k) (tasks s) \<and>
         (\<forall>j < length (tasks s).
            status (tasks (remove_client cid s) ! j) = Failed \<longrightarrow> status (tasks s ! j) = Failed) \<and>
         map_of (clients (remove_client cid s)) cid = None \<and>
         (\<forall>c. c \<noteq> cid \<longrightarrow> map_of (clients (remove_client cid s)) c = map_of (clients s) c) \<and>
         (holders t s = [cid] \<longrightarrow> holders t (remove_client cid s) = [])"
proof -
  have ts: "tasks (remove_client cid s) =
           map (\<lambda>k. if tid k = t \<and> status k = Assigned then k\<lparr>status := Queued\<rparr> else k) (tasks s)"
    using assms by (auto simp: remove_client_def truthy_def)
  have cs: "clients (remove_client cid s) = AList.delete cid (clients s)"
    using assms by (simp add: remove_client_def)
  have 2: "\<forall>j < length (tasks s).
            status (tasks (remove_client cid s) ! j) = Failed \<longrightarrow> status (tasks s ! j) = Failed"
    unfolding ts by (auto split: if_splits)
  have 3: "map_of (clients (remove_client cid s)) cid = None"
    unfolding cs by (simp add: delete_conv')
  have 4: "\<forall>c. c \<noteq> cid \<longrightarrow> map_of (clients (remove_client cid s)) c = map_of (clients s) c"
    unfolding cs by (simp add: delete_conv')
  have 5: "holders t s = [cid] \<longrightarrow> holders t (remove_client cid s) = []"
  proof
    assume "holders t s = [cid]"
    then have "map fst (filter (holds t) (clients s)) = [cid]" by (simp add: holders_def)
    then have "filter (holds t) (AList.delete cid (clients s)) = []" by (rule holders_delete)
    then show "holders t (remove_client cid s) = []" by (simp add: holders_def cs)
  qed
  from ts 2 3 4 5 show ?thesis by blast
qed

text \<open>The busy client of the sample state disconnects.\<close>

theorem disconnect_requeues_witness:
  "map_of (clients busy_example) ''c0_100'' =
     Some (example_client\<lparr>busy := True, task_id := Some ''task_0_120000000000''\<rparr>) \<and>
   holders ''task_0_120000000000'' busy_example = [''c0_100''] \<and>
   tasks (remove_client ''c0_100'' busy_example) =
     [example_task\<lparr>status := Queued, start_time := Some 0, client_id := Some ''c0_100''\<rparr>] \<and>
   map_of (clients (remove_client ''c0_100'' busy_example)) ''c0_100'' = None \<and>
   holders ''task_0_120000000000'' (remove_client ''c0_100'' busy_example) = []"
proof -
  have h1: "map_of (clients busy_example) ''c0_100'' =
     Some (example_client\<lparr>busy := True, task_id := Some ''task_0_120000000000''\<rparr>)"
    by (simp add: busy_example_def)
  have h2: "task_id (example_client\<lparr>busy := True, task_id := Some ''task_0_120000000000''\<rparr>) =
     Some ''task_0_120000000000''" and h3: "''task_0_120000000000'' \<noteq> []"
    by simp_all
  have h4: "holders ''task_0_120000000000'' busy_example = [''c0_100'']"
    by (simp add: holders_def holds_def busy_example_def)
  note T = disconnect_requeues [OF h1 h2 h3]
  from T have "tasks (remove_client ''c0_100'' busy_example) =
      map (\<lambda>k. if tid k = ''task_0_120000000000'' \<and> status k = Assigned
                then k\<lparr>status := Queued\<rparr> else k) (tasks busy_example)"
    by (rule conjunct1)
  then have c1: "tasks (remove_client ''c0_100'' busy_example) =
     [example_task\<lparr>status := Queued, start_time := Some 0, client_id := Some ''c0_100''\<rparr>]"
    by (simp add: busy_example_def example_task_def)
  from T have c2: "map_of (clients (remove_client ''c0_100'' busy_example)) ''c0_100'' = None"
    by blast
  from T h4 have c3: "holders ''task_0_120000000000'' (remove_client ''c0_100'' busy_example) = []"
    by blast
  from h1 h4 c1 c2 c3 show ?thesis by blast
qed

text \<open>
  The claim as stated fails. In the sample state the task is waiting after the removal
  but its \<^verbatim>\<open>client_id\<close> still names the removed client. After the run
  \<open>double_dispatch\<close>, where both clients hold the task, the first client disconnects:
  the task is waiting, and the second client, still registered and busy, holds it and is
  named by its \<^verbatim>\<open>client_id\<close>.
\<close>

theorem disconnect_requeues_counterexample:
  "bindings (remove_client ''c0_100'' busy_example) =
     [(''task_0_120000000000'', Queued, Some ''c0_100'')] \<and>
   map_option assignments (run double_dispatch init_state) =
     Some [(''c0_100'', True, Some ''task_0_120000000000''),
           (''c1_100'', True, Some ''task_0_120000000000'')] \<and>
   map_option bindings (run (double_dispatch @ [Disconnect ''c0_100'']) init_state) =
     Some [(''task_0_120000000000'', Queued, Some ''c1_100'')] \<and>
   map_option assignments (run (double_dispatch @ [Disconnect ''c0_100'']) init_state) =
     Some [(''c1_100'', True, Some ''task_0_120000000000'')]"
  by code_simp

end
